theory Spec2Isabelle
  imports Complex_Main "HOL-Library.Log_Nat"
begin

section \<open>Strings\<close>

text \<open>
  Strings are lists of characters, a character being a code unit below 256 (ASCII and
  Latin-1). On these, \<open>toLowerCase\<close> maps \<open>A\<close>..\<open>Z\<close> and the accented capitals
  \<open>0xC0\<close>..\<open>0xDE\<close> (the multiplication sign \<open>0xD7\<close> apart) to the letter 32 places
  up and leaves every other character alone, and the white space removed by \<open>trim\<close> (and
  matched by \<open>\s\<close>) is tab, line feed, vertical tab, form feed, carriage return, space
  and the no-break space \<open>0xA0\<close>.
\<close>

definition toLowerChar :: "char \<Rightarrow> char" where
  "toLowerChar c =
     (if ((65::nat) \<le> of_char c \<and> of_char c \<le> (90::nat))
         \<or> ((192::nat) \<le> of_char c \<and> of_char c \<le> (222::nat) \<and> of_char c \<noteq> (215::nat))
      then char_of (of_char c + (32::nat)) else c)"

definition toLowerCase :: "string \<Rightarrow> string" where
  "toLowerCase s = map toLowerChar s"

definition isWhiteSpace :: "char \<Rightarrow> bool" where
  "isWhiteSpace c =
     (c \<in> set [CHR 0x09, CHR 0x0A, CHR 0x0B, CHR 0x0C, CHR 0x0D, CHR '' '', CHR 0xA0])"

definition trimStart :: "string \<Rightarrow> string" where
  "trimStart s = dropWhile isWhiteSpace s"

definition trimEnd :: "string \<Rightarrow> string" where
  "trimEnd s = rev (dropWhile isWhiteSpace (rev s))"

definition trim :: "string \<Rightarrow> string" where
  "trim s = trimEnd (trimStart s)"

fun startsWith :: "string \<Rightarrow> string \<Rightarrow> bool" where
  "startsWith s [] = True"
| "startsWith [] (p # ps) = False"
| "startsWith (c # cs) (p # ps) = (c = p \<and> startsWith cs ps)"

text \<open>\<open>str_includes s pat\<close> is \<open>s.includes(pat)\<close>: \<open>pat\<close> occurs in \<open>s\<close> as a
  contiguous run of characters.\<close>

fun str_includes :: "string \<Rightarrow> string \<Rightarrow> bool" where
  "str_includes [] pat = (pat = [])"
| "str_includes (c # cs) pat = (startsWith (c # cs) pat \<or> str_includes cs pat)"

text \<open>\<open>join sep xs\<close> is \<open>xs.join(sep)\<close>.\<close>

fun join :: "string \<Rightarrow> string list \<Rightarrow> string" where
  "join sep [] = []"
| "join sep [x] = x"
| "join sep (x # y # ys) = x @ sep @ join sep (y # ys)"

text \<open>\<open>findIndex P xs\<close> is \<open>xs.findIndex(P)\<close>: the index of the first element
  satisfying \<open>P\<close>, or \<open>-1\<close>.\<close>

fun findIndex :: "('a \<Rightarrow> bool) \<Rightarrow> 'a list \<Rightarrow> int" where
  "findIndex P [] = - 1"
| "findIndex P (x # xs) =
     (if P x then 0 else (let r = findIndex P xs in if r = - 1 then - 1 else r + 1))"

section \<open>Numbers\<close>

text \<open>
  A JavaScript number is \<open>NaN\<close>, an infinity, or a finite double, given here by its
  exact value (the two zeros are both \<open>Fin 0\<close>, which is how \<open>Set\<close> membership and
  truthiness see them).
\<close>

datatype jsnum = NaN | PosInf | NegInf | Fin rat

definition digitChar :: "nat \<Rightarrow> char" where
  "digitChar d = ''0123456789'' ! d"

fun showNat :: "nat \<Rightarrow> string" where
  "showNat n = (if n < 10 then [digitChar n] else showNat (n div 10) @ [digitChar (n mod 10)])"

declare showNat.simps [simp del]

definition showInt :: "int \<Rightarrow> string" where
  "showInt i = (if i < 0 then CHR ''-'' # showNat (nat (- i)) else showNat (nat i))"

text \<open>
  \<open>Number.prototype.toString\<close>. An integer of magnitude below \<open>2^53\<close> prints as its
  decimal numeral. The shortest round-trip rendering that the runtime gives every other
  finite double is not modelled: it is the parameter \<open>fs\<close>, and every result below holds
  for each choice of it.
\<close>

definition numToString :: "(rat \<Rightarrow> string) \<Rightarrow> jsnum \<Rightarrow> string" where
  "numToString fs n =
     (case n of
        NaN \<Rightarrow> ''NaN''
      | PosInf \<Rightarrow> ''Infinity''
      | NegInf \<Rightarrow> ''-Infinity''
      | Fin r \<Rightarrow>
          (if r = of_int \<lfloor>r\<rfloor> \<and> \<bar>r\<bar> < 2 ^ 53 then showInt \<lfloor>r\<rfloor> else fs r))"

section \<open>Double arithmetic\<close>

text \<open>
  The arithmetic of the runtime rounds every result to the nearest binary64 value, ties
  to the even significand. \<open>floorLog2 a\<close> is the exponent \<open>e\<close> with
  \<open>2^e \<le> a < 2^(e+1)\<close>, for a positive \<open>a\<close>; the spacing of the doubles around \<open>a\<close> is
  \<open>2^(e-52)\<close>, and never less than \<open>2^-1074\<close>. A result of magnitude \<open>2^1024\<close> or more
  after rounding is an infinity.
\<close>

definition floorLog2 :: "rat \<Rightarrow> int" where
  "floorLog2 a =
     (let (p, q) = quotient_of a; e0 = bitlen p - bitlen q
      in if 2 powi e0 \<le> a then e0 else e0 - 1)"

definition roundHalfEven :: "rat \<Rightarrow> int" where
  "roundHalfEven x =
     (let f = \<lfloor>x\<rfloor>; d = x - of_int f
      in if d < 1 / 2 then f else if 1 / 2 < d then f + 1 else if even f then f else f + 1)"

definition roundDouble :: "rat \<Rightarrow> jsnum" where
  "roundDouble r =
     (if r = 0 then Fin 0
      else
        (let a = \<bar>r\<bar>;
             e = max (floorLog2 a) (- 1022);
             q = 2 powi (e - 52);
             y = of_int (roundHalfEven (a / q)) * q
         in if of_int (2 ^ 1024) \<le> y then (if r < 0 then NegInf else PosInf)
            else Fin (if r < 0 then - y else y)))"

text \<open>\<open>x + y\<close> and \<open>x / y\<close> on numbers. The model has one zero, taken as positive
  where its sign would show (a division of a non-zero number by zero).\<close>

fun num_add :: "jsnum \<Rightarrow> jsnum \<Rightarrow> jsnum" where
  "num_add (Fin a) (Fin b) = roundDouble (a + b)"
| "num_add NaN y = NaN"
| "num_add x NaN = NaN"
| "num_add PosInf NegInf = NaN"
| "num_add NegInf PosInf = NaN"
| "num_add PosInf y = PosInf"
| "num_add NegInf y = NegInf"
| "num_add x PosInf = PosInf"
| "num_add x NegInf = NegInf"

fun num_div :: "jsnum \<Rightarrow> jsnum \<Rightarrow> jsnum" where
  "num_div (Fin a) (Fin b) =
     (if b = 0 then (if a = 0 then NaN else if 0 < a then PosInf else NegInf)
      else roundDouble (a / b))"
| "num_div NaN y = NaN"
| "num_div x NaN = NaN"
| "num_div (Fin a) y = Fin 0"
| "num_div PosInf (Fin b) = (if b < 0 then NegInf else PosInf)"
| "num_div NegInf (Fin b) = (if b < 0 then PosInf else NegInf)"
| "num_div x y = NaN"

text \<open>The comparisons \<open>n > 0\<close>, \<open>n <= 0\<close> and \<open>n < 0\<close>; each is false of \<open>NaN\<close>.\<close>

definition gt_zero :: "jsnum \<Rightarrow> bool" where
  "gt_zero n = (case n of Fin r \<Rightarrow> 0 < r | PosInf \<Rightarrow> True | _ \<Rightarrow> False)"

definition le_zero :: "jsnum \<Rightarrow> bool" where
  "le_zero n = (case n of Fin r \<Rightarrow> r \<le> 0 | NegInf \<Rightarrow> True | _ \<Rightarrow> False)"

definition lt_zero :: "jsnum \<Rightarrow> bool" where
  "lt_zero n = (case n of Fin r \<Rightarrow> r < 0 | NegInf \<Rightarrow> True | _ \<Rightarrow> False)"

definition isNaN :: "jsnum \<Rightarrow> bool" where
  "isNaN n = (n = NaN)"

section \<open>Cells\<close>

text \<open>
  A cell of the grid is typed \<open>any\<close> in the source. The values the parsers and the
  editor put there are strings, numbers, booleans, \<open>null\<close> and \<open>undefined\<close> (a
  row shorter than the header list reads as \<open>undefined\<close>).
\<close>

datatype cell = Str string | Num jsnum | Bool bool | Null | Undefined

text \<open>\<open>falsy c\<close> is \<open>!c\<close>.\<close>

fun falsy :: "cell \<Rightarrow> bool" where
  "falsy (Str s) = (s = [])"
| "falsy (Num n) = (n = NaN \<or> n = Fin 0)"
| "falsy (Bool b) = (\<not> b)"
| "falsy Null = True"
| "falsy Undefined = True"

text \<open>\<open>cellToString fs c\<close> is \<open>c.toString()\<close>, which the source only calls on a cell
  that is not falsy; \<open>null\<close> and \<open>undefined\<close> have no such method and get the
  text that a template literal gives them.\<close>

fun cellToString :: "(rat \<Rightarrow> string) \<Rightarrow> cell \<Rightarrow> string" where
  "cellToString fs (Str s) = s"
| "cellToString fs (Num n) = numToString fs n"
| "cellToString fs (Bool b) = (if b then ''true'' else ''false'')"
| "cellToString fs Null = ''null''"
| "cellToString fs Undefined = ''undefined''"

text \<open>\<open>row_get r i\<close> is \<open>r[i]\<close>: reading past the end of an array gives
  \<open>undefined\<close>.\<close>

definition row_get :: "cell list \<Rightarrow> nat \<Rightarrow> cell" where
  "row_get r i = (if i < length r then r ! i else Undefined)"

section \<open>Parsing numbers\<close>

definition isDigit :: "char \<Rightarrow> bool" where
  "isDigit c = (c \<in> set ''0123456789'')"

definition digitVal :: "char \<Rightarrow> nat" where
  "digitVal c = of_char c - 48"

text \<open>The value of a character as a digit of radix \<open>R\<close>, if it is one.\<close>

definition radixDigit :: "nat \<Rightarrow> char \<Rightarrow> nat option" where
  "radixDigit R c =
     (let v = (if isDigit c then Some (digitVal c)
               else if c \<in> set ''abcdef'' then Some (of_char c - 87)
               else if c \<in> set ''ABCDEF'' then Some (of_char c - 55)
               else None)
      in case v of None \<Rightarrow> None | Some d \<Rightarrow> if d < R then Some d else None)"

definition digitsValue :: "nat \<Rightarrow> string \<Rightarrow> nat" where
  "digitsValue R Z = foldl (\<lambda>a c. a * R + the (radixDigit R c)) 0 Z"

text \<open>
  \<open>parseInt(str)\<close> with no radix: leading white space is skipped, a sign is read, a
  \<open>0x\<close> or \<open>0X\<close> prefix selects radix 16, and the longest run of digits that follows
  is the value; whatever comes after that run is ignored. With no digit the result is
  \<open>NaN\<close>, here \<open>None\<close>. The runtime returns the double nearest to the integer read;
  rounding is monotone and fixes 1 and 5, so the comparisons of the validator see the
  integer itself.
\<close>

definition parseInt :: "string \<Rightarrow> int option" where
  "parseInt str =
     (let S = trimStart str;
          sign = (if startsWith S ''-'' then - 1 else 1);
          S1 = (if startsWith S ''+'' \<or> startsWith S ''-'' then tl S else S);
          hex = (startsWith S1 ''0x'' \<or> startsWith S1 ''0X'');
          R = (if hex then 16 else 10);
          S2 = (if hex then drop 2 S1 else S1);
          Z = takeWhile (\<lambda>c. radixDigit R c \<noteq> None) S2
      in if Z = [] then None else Some (sign * int (digitsValue R Z)))"

text \<open>
  \<open>parseFloat(str)\<close>: the longest prefix (after leading white space) that is a decimal
  literal: a sign, then \<open>Infinity\<close> or digits with an optional fraction and an optional
  exponent. The result is the double nearest to the value read, and \<open>NaN\<close> when there
  is no such prefix.
\<close>

definition pow10 :: "int \<Rightarrow> rat" where
  "pow10 e = (if 0 \<le> e then 10 ^ nat e else 1 / 10 ^ nat (- e))"

definition parseFloat :: "string \<Rightarrow> jsnum" where
  "parseFloat str =
     (let S = trimStart str;
          neg = startsWith S ''-'';
          S1 = (if startsWith S ''+'' \<or> startsWith S ''-'' then tl S else S)
      in if startsWith S1 ''Infinity'' then (if neg then NegInf else PosInf)
         else
           (let ip = takeWhile isDigit S1;
                r1 = dropWhile isDigit S1;
                dot = startsWith r1 ''.'';
                fp = (if dot then takeWhile isDigit (tl r1) else []);
                r2 = (if dot then dropWhile isDigit (tl r1) else r1)
            in if ip = [] \<and> fp = [] then NaN
               else
                 (let mant = of_nat (digitsValue 10 ip)
                             + of_nat (digitsValue 10 fp) / 10 ^ length fp;
                      r3 = tl r2;
                      eneg = startsWith r3 ''-'';
                      r4 = (if startsWith r3 ''+'' \<or> startsWith r3 ''-'' then tl r3 else r3);
                      ed = takeWhile isDigit r4;
                      ex = (if (startsWith r2 ''e'' \<or> startsWith r2 ''E'') \<and> ed \<noteq> []
                            then (if eneg then - int (digitsValue 10 ed)
                                  else int (digitsValue 10 ed))
                            else 0);
                      v = mant * pow10 ex
                  in roundDouble (if neg then - v else v))))"

section \<open>The e-mail pattern\<close>

text \<open>
  \<open>emailRegex_test s\<close> is \<open>/^[^\s@]+@[^\s@]+\.[^\s@]+$/.test(s)\<close>: a non-empty run of
  characters that are neither white space nor \<open>@\<close>, one \<open>@\<close>, and a second such run
  holding a dot that is neither its first nor its last character.
\<close>

definition emailChar :: "char \<Rightarrow> bool" where
  "emailChar c = (\<not> isWhiteSpace c \<and> c \<noteq> CHR ''@'')"

definition emailRegex_test :: "string \<Rightarrow> bool" where
  "emailRegex_test s =
     (let a = takeWhile emailChar s;
          r = dropWhile emailChar s;
          d = tl r
      in a \<noteq> [] \<and> startsWith r ''@'' \<and> list_all emailChar d
         \<and> CHR ''.'' \<in> set (butlast (tl d)))"

section \<open>JSON texts\<close>

text \<open>
  \<open>JSON.parse\<close> throws a \<open>SyntaxError\<close> exactly when its argument is not a JSON text.
  The validator only looks at whether it throws, so the parser is modelled by a recogniser
  of the JSON grammar: a machine that reads one character at a time, with a stack of the
  objects and arrays that are open. \<open>JSON_parse s = None\<close> stands for the exception.
\<close>

datatype jctx = InObject | InArray

datatype jmode =
    Val | ValOrEnd | KeyOrEnd | Key | Colon | After
  | InStr bool | Esc bool | Uni bool nat | Lit string
  | NMinus | NZero | NInt | NDot | NFrac | NExp | NExpSign | NExpDig

definition jsonWs :: "char \<Rightarrow> bool" where
  "jsonWs c = (c \<in> set [CHR 0x09, CHR 0x0A, CHR 0x0D, CHR '' ''])"

definition isHexDigit :: "char \<Rightarrow> bool" where
  "isHexDigit c = (c \<in> set ''0123456789abcdefABCDEF'')"

text \<open>The character that follows a complete value.\<close>

definition afterValue :: "jctx list \<Rightarrow> char \<Rightarrow> (jmode \<times> jctx list) option" where
  "afterValue stk c =
     (if jsonWs c then Some (After, stk)
      else if c = CHR '','' then
        (case stk of [] \<Rightarrow> None
         | InObject # _ \<Rightarrow> Some (Key, stk)
         | InArray # _ \<Rightarrow> Some (Val, stk))
      else if c = CHR ''}'' then
        (case stk of InObject # rest \<Rightarrow> Some (After, rest) | _ \<Rightarrow> None)
      else if c = CHR '']'' then
        (case stk of InArray # rest \<Rightarrow> Some (After, rest) | _ \<Rightarrow> None)
      else None)"

text \<open>The first character of a value.\<close>

definition startValue :: "jctx list \<Rightarrow> char \<Rightarrow> (jmode \<times> jctx list) option" where
  "startValue stk c =
     (if c = CHR ''{'' then Some (KeyOrEnd, InObject # stk)
      else if c = CHR ''['' then Some (ValOrEnd, InArray # stk)
      else if c = CHR 0x22 then Some (InStr False, stk)
      else if c = CHR ''-'' then Some (NMinus, stk)
      else if c = CHR ''0'' then Some (NZero, stk)
      else if isDigit c then Some (NInt, stk)
      else if c = CHR ''t'' then Some (Lit ''rue'', stk)
      else if c = CHR ''f'' then Some (Lit ''alse'', stk)
      else if c = CHR ''n'' then Some (Lit ''ull'', stk)
      else None)"

fun jstep :: "jmode \<times> jctx list \<Rightarrow> char \<Rightarrow> (jmode \<times> jctx list) option" where
  "jstep (Val, stk) c = (if jsonWs c then Some (Val, stk) else startValue stk c)"
| "jstep (ValOrEnd, stk) c =
     (if jsonWs c then Some (ValOrEnd, stk)
      else if c = CHR '']'' then Some (After, tl stk)
      else startValue stk c)"
| "jstep (KeyOrEnd, stk) c =
     (if jsonWs c then Some (KeyOrEnd, stk)
      else if c = CHR ''}'' then Some (After, tl stk)
      else if c = CHR 0x22 then Some (InStr True, stk)
      else None)"
| "jstep (Key, stk) c =
     (if jsonWs c then Some (Key, stk)
      else if c = CHR 0x22 then Some (InStr True, stk)
      else None)"
| "jstep (Colon, stk) c =
     (if jsonWs c then Some (Colon, stk)
      else if c = CHR '':'' then Some (Val, stk)
      else None)"
| "jstep (After, stk) c = afterValue stk c"
| "jstep (InStr k, stk) c =
     (if c = CHR 0x22 then Some (if k then Colon else After, stk)
      else if c = CHR 0x5C then Some (Esc k, stk)
      else if (of_char c :: nat) < 32 then None
      else Some (InStr k, stk))"
| "jstep (Esc k, stk) c =
     (if c \<in> set [CHR 0x22, CHR 0x5C, CHR ''/'', CHR ''b'', CHR ''f'', CHR ''n'', CHR ''r'', CHR ''t'']
      then Some (InStr k, stk)
      else if c = CHR ''u'' then Some (Uni k 4, stk)
      else None)"
| "jstep (Uni k n, stk) c =
     (if isHexDigit c then Some (if n \<le> 1 then InStr k else Uni k (n - 1), stk) else None)"
| "jstep (Lit [], stk) c = None"
| "jstep (Lit (x # xs), stk) c =
     (if c = x then Some (if xs = [] then After else Lit xs, stk) else None)"
| "jstep (NMinus, stk) c =
     (if c = CHR ''0'' then Some (NZero, stk)
      else if isDigit c then Some (NInt, stk)
      else None)"
| "jstep (NZero, stk) c =
     (if c = CHR ''.'' then Some (NDot, stk)
      else if c = CHR ''e'' \<or> c = CHR ''E'' then Some (NExp, stk)
      else afterValue stk c)"
| "jstep (NInt, stk) c =
     (if isDigit c then Some (NInt, stk)
      else if c = CHR ''.'' then Some (NDot, stk)
      else if c = CHR ''e'' \<or> c = CHR ''E'' then Some (NExp, stk)
      else afterValue stk c)"
| "jstep (NDot, stk) c = (if isDigit c then Some (NFrac, stk) else None)"
| "jstep (NFrac, stk) c =
     (if isDigit c then Some (NFrac, stk)
      else if c = CHR ''e'' \<or> c = CHR ''E'' then Some (NExp, stk)
      else afterValue stk c)"
| "jstep (NExp, stk) c =
     (if c = CHR ''+'' \<or> c = CHR ''-'' then Some (NExpSign, stk)
      else if isDigit c then Some (NExpDig, stk)
      else None)"
| "jstep (NExpSign, stk) c = (if isDigit c then Some (NExpDig, stk) else None)"
| "jstep (NExpDig, stk) c = (if isDigit c then Some (NExpDig, stk) else afterValue stk c)"

fun jrun :: "jmode \<times> jctx list \<Rightarrow> string \<Rightarrow> (jmode \<times> jctx list) option" where
  "jrun st [] = Some st"
| "jrun st (c # cs) = (case jstep st c of None \<Rightarrow> None | Some st' \<Rightarrow> jrun st' cs)"

text \<open>The text is complete when no object or array is open and a value has ended.\<close>

definition jfinal :: "jmode \<times> jctx list \<Rightarrow> bool" where
  "jfinal st = (snd st = [] \<and> fst st \<in> set [After, NZero, NInt, NFrac, NExpDig])"

definition JSON_parse :: "string \<Rightarrow> unit option" where
  "JSON_parse s =
     (case jrun (Val, []) s of
        None \<Rightarrow> None
      | Some st \<Rightarrow> if jfinal st then Some () else None)"

section \<open>The data model\<close>

datatype severity = Error | Warning | Info

datatype kind =
  Missing | Duplicate | Malformed | Range | Reference | Conflict | Saturation | Coverage

text \<open>
  A \<open>ValidationError\<close> of the source. Its \<open>id\<close> is a random string that nothing reads,
  and is left out; its \<open>type\<close> is the field \<open>etype\<close>.
\<close>

record ValidationError =
  fileId :: string
  row :: int
  column :: int
  field :: string
  message :: string
  severity :: severity
  etype :: kind
  suggestion :: "string option"

text \<open>A \<open>DataFile\<close>; its \<open>id\<close> and \<open>type\<close> are the fields \<open>fid\<close> and \<open>ftype\<close>.\<close>

record DataFile =
  fid :: string
  name :: string
  ftype :: string
  headers :: "string list"
  data :: "cell list list"
  originalData :: "cell list list"
  errors :: "ValidationError list"

section \<open>The cell validator\<close>

text \<open>
  \<open>validateCell\<close> of the source. The checks run in the order of the source; each one
  that fails appends one issue. An empty cell returns at once.
\<close>

definition validateCell ::
  "(rat \<Rightarrow> string) \<Rightarrow> DataFile \<Rightarrow> nat \<Rightarrow> nat \<Rightarrow> string \<Rightarrow> cell \<Rightarrow> ValidationError list" where
  "validateCell fs file rowIndex colIndex header c =
     (let headerLower = toLowerCase header in
      if falsy c \<or> trim (cellToString fs c) = [] then
        (if str_includes headerLower ''id'' \<or> str_includes headerLower ''name''
            \<or> str_includes headerLower ''email''
         then [\<lparr> fileId = fid file, row = int rowIndex, column = int colIndex,
                 field = header,
                 message = ''Missing required value in '' @ header,
                 severity = Error, etype = Missing,
                 suggestion = Some ''Provide a value for this required field'' \<rparr>]
         else [])
      else
        (let cellStr = trim (cellToString fs c) in
           (if str_includes headerLower ''email'' \<and> \<not> emailRegex_test cellStr
            then [\<lparr> fileId = fid file, row = int rowIndex, column = int colIndex,
                    field = header,
                    message = ''Invalid email format: '' @ cellStr,
                    severity = Error, etype = Malformed,
                    suggestion = Some ''Use format: user@domain.com'' \<rparr>]
            else [])
         @ (if str_includes headerLower ''priority''
               \<and> (case parseInt cellStr of None \<Rightarrow> True | Some priority \<Rightarrow> priority < 1 \<or> priority > 5)
            then [\<lparr> fileId = fid file, row = int rowIndex, column = int colIndex,
                    field = header,
                    message = ''Priority must be between 1-5, got: '' @ cellStr,
                    severity = Error, etype = Range,
                    suggestion = Some ''Use values 1 (low) to 5 (high)'' \<rparr>]
            else [])
         @ (if str_includes headerLower ''duration''
               \<and> (let duration = parseFloat cellStr in isNaN duration \<or> le_zero duration)
            then [\<lparr> fileId = fid file, row = int rowIndex, column = int colIndex,
                    field = header,
                    message = ''Duration must be a positive number, got: '' @ cellStr,
                    severity = Error, etype = Range,
                    suggestion = Some ''Use positive numbers (hours/days)'' \<rparr>]
            else [])
         @ (if str_includes headerLower ''budget''
               \<and> (let budget = parseFloat (filter (\<lambda>ch. ch \<noteq> CHR ''$'' \<and> ch \<noteq> CHR '','') cellStr)
                  in isNaN budget \<or> lt_zero budget)
            then [\<lparr> fileId = fid file, row = int rowIndex, column = int colIndex,
                    field = header,
                    message = ''Budget must be a positive number, got: '' @ cellStr,
                    severity = Warning, etype = Range,
                    suggestion = Some ''Use positive numbers without currency symbols'' \<rparr>]
            else [])
         @ (if str_includes headerLower ''skill''
               \<and> (str_includes cellStr '';'' \<or> str_includes cellStr ''|'')
            then [\<lparr> fileId = fid file, row = int rowIndex, column = int colIndex,
                    field = header,
                    message = ''Skills should be comma-separated, got: '' @ cellStr,
                    severity = Warning, etype = Malformed,
                    suggestion = Some (''Use commas to separate skills: '' @ [CHR 0x22]
                                       @ ''JavaScript, React, Node.js'' @ [CHR 0x22]) \<rparr>]
            else [])
         @ (if (startsWith cellStr ''{'' \<or> startsWith cellStr ''['')
               \<and> JSON_parse cellStr = None
            then [\<lparr> fileId = fid file, row = int rowIndex, column = int colIndex,
                    field = header,
                    message = ''Invalid JSON format in '' @ header,
                    severity = Error, etype = Malformed,
                    suggestion = Some ''Fix JSON syntax or use plain text'' \<rparr>]
            else [])))"

section \<open>The file validator\<close>

definition getRequiredColumns :: "string \<Rightarrow> string list" where
  "getRequiredColumns fileType =
     (if fileType = ''clients'' then [''id'', ''name'', ''email'', ''priority'']
      else if fileType = ''workers'' then [''id'', ''name'', ''skills'', ''availability'']
      else if fileType = ''tasks'' then [''id'', ''title'', ''duration'', ''priority'']
      else [''id''])"

definition findIdColumn :: "string list \<Rightarrow> int" where
  "findIdColumn hs =
     findIndex (\<lambda>header.
        str_includes (toLowerCase header) ''id''
        \<and> \<not> str_includes (toLowerCase header) ''client''
        \<and> \<not> str_includes (toLowerCase header) ''task''
        \<and> \<not> str_includes (toLowerCase header) ''worker'') hs"

text \<open>The required columns that no header matches.\<close>

definition missingColumns :: "DataFile \<Rightarrow> string list" where
  "missingColumns file =
     filter (\<lambda>col. \<not> list_ex (\<lambda>header.
                str_includes (toLowerCase header) (toLowerCase col)
                \<or> str_includes (toLowerCase col) (toLowerCase header)) (headers file))
       (getRequiredColumns (ftype file))"

definition missingColumnError :: "DataFile \<Rightarrow> string \<Rightarrow> ValidationError" where
  "missingColumnError file col =
     \<lparr> fileId = fid file, row = - 1, column = - 1, field = col,
       message = ''Missing required column: '' @ col,
       severity = Error, etype = Missing,
       suggestion = Some (''Add a column for '' @ col @ '' or rename an existing column'') \<rparr>"

text \<open>\<open>indexed xs\<close> pairs every element with its index, as \<open>forEach\<close> passes them.\<close>

definition indexed :: "'a list \<Rightarrow> (nat \<times> 'a) list" where
  "indexed xs = enumerate 0 xs"

text \<open>The issues of all cells, row by row and, in a row, header by header.\<close>

definition cellErrors :: "(rat \<Rightarrow> string) \<Rightarrow> DataFile \<Rightarrow> ValidationError list" where
  "cellErrors fs file =
     concat (map (\<lambda>(rowIndex, r).
        concat (map (\<lambda>(colIndex, header).
           validateCell fs file rowIndex colIndex header (row_get r colIndex))
          (indexed (headers file))))
       (indexed (data file)))"

text \<open>
  The scan for duplicate identifiers: \<open>ids\<close> is the set of the values seen in the rows
  above. Membership in a \<open>Set\<close> compares a string by its text and a number by its value,
  and never equates values of different types; that is equality of \<open>cell\<close>.
\<close>

fun duplicateScan ::
  "(rat \<Rightarrow> string) \<Rightarrow> DataFile \<Rightarrow> nat \<Rightarrow> cell set \<Rightarrow> (nat \<times> cell list) list \<Rightarrow> ValidationError list" where
  "duplicateScan fs file idColumn ids [] = []"
| "duplicateScan fs file idColumn ids ((rowIndex, r) # rest) =
     (let i = row_get r idColumn in
        (if \<not> falsy i \<and> i \<in> ids
         then [\<lparr> fileId = fid file, row = int rowIndex, column = int idColumn,
                 field = headers file ! idColumn,
                 message = ''Duplicate ID: '' @ cellToString fs i,
                 severity = Error, etype = Duplicate,
                 suggestion = Some ''Ensure all IDs are unique'' \<rparr>]
         else [])
        @ duplicateScan fs file idColumn (insert i ids) rest)"

definition validateData :: "(rat \<Rightarrow> string) \<Rightarrow> DataFile \<Rightarrow> ValidationError list" where
  "validateData fs file =
     (let idColumn = findIdColumn (headers file) in
        map (missingColumnError file) (missingColumns file)
        @ cellErrors fs file
        @ (if idColumn \<noteq> - 1
           then duplicateScan fs file (nat idColumn) {} (indexed (data file))
           else []))"

section \<open>Exceptions\<close>














section \<open>File category inference\<close>

text \<open>\<open>detectFileType\<close> of the upload component.\<close>

definition detectFileType :: "string \<Rightarrow> string list \<Rightarrow> string" where
  "detectFileType fileName hs =
     (let nm = toLowerCase fileName;
          headerStr = toLowerCase (join '' '' hs)
      in if str_includes nm ''client'' \<or> str_includes headerStr ''client''
            \<or> str_includes headerStr ''customer''
         then ''clients''
         else if str_includes nm ''worker'' \<or> str_includes nm ''employee''
                 \<or> str_includes headerStr ''worker'' \<or> str_includes headerStr ''employee''
         then ''workers''
         else ''tasks'')"

section \<open>Export and upload of CSV text\<close>

text \<open>
  \<open>cellText fs c\<close> is \<open>c?.toString() || ''\<close>: \<open>null\<close> and \<open>undefined\<close> give the
  empty text, every other cell its \<open>toString()\<close>.
\<close>

fun cellText :: "(rat \<Rightarrow> string) \<Rightarrow> cell \<Rightarrow> string" where
  "cellText fs Null = []"
| "cellText fs Undefined = []"
| "cellText fs c = cellToString fs c"

text \<open>\<open>doubleQuotes s\<close> is \<open>s.replace(/"/g, '""')\<close>.\<close>

fun doubleQuotes :: "string \<Rightarrow> string" where
  "doubleQuotes [] = []"
| "doubleQuotes (c # cs) = (if c = CHR 0x22 then CHR 0x22 # CHR 0x22 # doubleQuotes cs
                            else c # doubleQuotes cs)"

definition needsQuotes :: "string \<Rightarrow> bool" where
  "needsQuotes s = (CHR '','' \<in> set s \<or> CHR 0x22 \<in> set s \<or> CHR 0x0A \<in> set s)"

definition csvField :: "string \<Rightarrow> string" where
  "csvField cellStr =
     (if needsQuotes cellStr then [CHR 0x22] @ doubleQuotes cellStr @ [CHR 0x22] else cellStr)"

text \<open>\<open>generateCleanedCSV\<close> of the export panel: the headers joined by commas as they
  are, then one line per row of the working grid.\<close>

definition generateCleanedCSV :: "(rat \<Rightarrow> string) \<Rightarrow> DataFile \<Rightarrow> string" where
  "generateCleanedCSV fs file =
     (let hdr = join '','' (headers file);
          rows = map (\<lambda>r. join '','' (map (\<lambda>c. csvField (cellText fs c)) r)) (data file)
      in join [CHR 0x0A] (hdr # rows))"

text \<open>
  The upload reads CSV text with the PapaParse library, which is not part of the sources.
  It is modelled as a reader of delimited text with line-feed line ends (the library
  detects the line end; in a text with no carriage return it is the line feed) and the
  standard quoting: a field that starts with a double quote runs to the closing quote, and a
  doubled quote inside it stands for one quote. A quote that closes a field but is
  followed by more text, which the export never writes, is kept as part of the field. The
  scanner reads one character at a time; \<open>d\<close> is the delimiter, \<open>fld\<close> the field and
  \<open>rw\<close> the row read so far.
\<close>

datatype csvMode = FieldStart | Unquoted | Quoted | QuoteSeen

fun scanCSV :: "char \<Rightarrow> csvMode \<Rightarrow> string \<Rightarrow> string list \<Rightarrow> string \<Rightarrow> string list list" where
  "scanCSV d m fld rw [] = [rw @ [fld]]"
| "scanCSV d FieldStart fld rw (c # cs) =
     (if c = CHR 0x22 then scanCSV d Quoted [] rw cs
      else if c = d then scanCSV d FieldStart [] (rw @ [[]]) cs
      else if c = CHR 0x0A then (rw @ [[]]) # scanCSV d FieldStart [] [] cs
      else scanCSV d Unquoted [c] rw cs)"
| "scanCSV d Unquoted fld rw (c # cs) =
     (if c = d then scanCSV d FieldStart [] (rw @ [fld]) cs
      else if c = CHR 0x0A then (rw @ [fld]) # scanCSV d FieldStart [] [] cs
      else scanCSV d Unquoted (fld @ [c]) rw cs)"
| "scanCSV d Quoted fld rw (c # cs) =
     (if c = CHR 0x22 then scanCSV d QuoteSeen fld rw cs
      else scanCSV d Quoted (fld @ [c]) rw cs)"
| "scanCSV d QuoteSeen fld rw (c # cs) =
     (if c = CHR 0x22 then scanCSV d Quoted (fld @ [CHR 0x22]) rw cs
      else if c = d then scanCSV d FieldStart [] (rw @ [fld]) cs
      else if c = CHR 0x0A then (rw @ [fld]) # scanCSV d FieldStart [] [] cs
      else scanCSV d Quoted (fld @ [CHR 0x22, c]) rw cs)"

text \<open>
  The call names no delimiter, so the library guesses one from the text, among the comma,
  the tab, the bar, the semicolon and the two ASCII separators, and falls back on the
  comma. How it scores the candidates is not modelled: the guess is the parameter
  \<open>guess\<close>, with \<open>None\<close> for the fall-back. What the results below use is that a
  candidate is only ever chosen when splitting on it yields more than one field in some
  line, so that it occurs in the text.
\<close>

definition delimitersToGuess :: "char list" where
  "delimitersToGuess = [CHR '','', CHR 0x09, CHR ''|'', CHR '';'', CHR 0x1E, CHR 0x1F]"

definition soundGuess :: "(string \<Rightarrow> char option) \<Rightarrow> bool" where
  "soundGuess guess =
     (\<forall>text d. guess text = Some d \<longrightarrow> d \<in> set delimitersToGuess \<and> d \<in> set text)"

text \<open>The option \<open>skipEmptyLines: true\<close> of the call: a line that holds one empty field
  is dropped.\<close>

definition emptyLine :: "string list \<Rightarrow> bool" where
  "emptyLine r = (length r = 1 \<and> r ! 0 = [])"

definition papaParse :: "(string \<Rightarrow> char option) \<Rightarrow> string \<Rightarrow> string list list" where
  "papaParse guess text =
     (let d = (case guess text of Some c \<Rightarrow> c | None \<Rightarrow> CHR '','')
      in filter (\<lambda>r. \<not> emptyLine r) (scanCSV d FieldStart [] [] text))"

text \<open>The header normalisation of the upload:
  \<open>header.toString().trim().toLowerCase().replace(/[^a-z0-9]/g, '_')\<close>.\<close>

definition isLowerAlnum :: "char \<Rightarrow> bool" where
  "isLowerAlnum c = (c \<in> set ''abcdefghijklmnopqrstuvwxyz0123456789'')"

definition normalizeHeader :: "string \<Rightarrow> string" where
  "normalizeHeader header =
     map (\<lambda>c. if isLowerAlnum c then c else CHR ''_'') (toLowerCase (trim header))"

text \<open>
  The CSV branch of \<open>processFile\<close>, on the text of the file: the first line that is
  left gives the headers, the others the grid; a text with no line gives no file
  (\<open>null\<close> in the source, \<open>None\<close> here). The result is the pair of the headers and the
  grid of the new \<open>DataFile\<close>.
\<close>

definition processCSV ::
  "(string \<Rightarrow> char option) \<Rightarrow> string \<Rightarrow> (string list \<times> string list list) option" where
  "processCSV guess text =
     (case papaParse guess text of
        [] \<Rightarrow> None
      | hs # rows \<Rightarrow> Some (map normalizeHeader hs, rows))"

section \<open>Rule conditions\<close>

text \<open>The eight operators and the two connectives of a \<open>RuleCondition\<close>, as the type
  declarations of the source list them.\<close>

datatype operator =
  Equals | NotEquals | GreaterThan | LessThan | Contains | Regex | In | NotIn

datatype connective = AND | OR

text \<open>A \<open>RuleCondition\<close>; its \<open>field\<close>, \<open>operator\<close> and \<open>value\<close> are the fields
  \<open>cfield\<close>, \<open>cop\<close> and \<open>cvalue\<close>. The value comes from a text input.\<close>

record RuleCondition =
  cfield :: string
  cop :: operator
  cvalue :: string
  logicalOperator :: "connective option"

text \<open>\<open>splitOn d s\<close> is \<open>s.split(d)\<close> for a one-character separator.\<close>

fun splitOn :: "char \<Rightarrow> string \<Rightarrow> string list" where
  "splitOn d [] = [[]]"
| "splitOn d (c # cs) =
     (case splitOn d cs of
        [] \<Rightarrow> (if c = d then [[], []] else [[c]])
      | w # ws \<Rightarrow> (if c = d then [] # w # ws else (c # w) # ws))"

text \<open>
  Modelled from the spec: the function that matches one rule condition against a field
  value. The sources declare the type of a condition and build conditions in a form, but
  hold no code that evaluates one. The spec gives the meaning of each operator against a
  field value \<open>v\<close> and the condition value \<open>x\<close>: equals and not-equals are case-sensitive
  string equality; greater-than and less-than compare numbers and are false when an
  operand is not numeric; contains is a case-insensitive substring test; regex tests \<open>v\<close>
  against \<open>x\<close> compiled as a case-insensitive pattern and is false when the pattern is
  invalid; in and not-in test membership of \<open>v\<close>, case aside, in the comma-separated list
  \<open>x\<close>. The spec fixes neither how a text is read as a number nor the pattern language:
  \<open>toNumber\<close> gives the number a text stands for, if any, and \<open>regExp pattern flags\<close> is
  the compiler of the pattern language, which gives the matcher of a valid pattern under
  the given flags and nothing for an invalid one. The flag \<open>i\<close> asks it for a matcher that
  ignores letter case.
\<close>

definition evaluateCondition ::
  "(string \<Rightarrow> rat option) \<Rightarrow> (string \<Rightarrow> string \<Rightarrow> (string \<Rightarrow> bool) option)
     \<Rightarrow> RuleCondition \<Rightarrow> string \<Rightarrow> bool" where
  "evaluateCondition toNumber regExp cond v =
     (let x = cvalue cond in
      case cop cond of
        Equals \<Rightarrow> v = x
      | NotEquals \<Rightarrow> v \<noteq> x
      | GreaterThan \<Rightarrow>
          (case (toNumber v, toNumber x) of (Some a, Some b) \<Rightarrow> a > b | _ \<Rightarrow> False)
      | LessThan \<Rightarrow>
          (case (toNumber v, toNumber x) of (Some a, Some b) \<Rightarrow> a < b | _ \<Rightarrow> False)
      | Contains \<Rightarrow> str_includes (toLowerCase v) (toLowerCase x)
      | Regex \<Rightarrow> (case regExp x ''i'' of None \<Rightarrow> False | Some matches \<Rightarrow> matches v)
      | In \<Rightarrow> toLowerCase v \<in> set (map toLowerCase (splitOn CHR '','' x))
      | NotIn \<Rightarrow> toLowerCase v \<notin> set (map toLowerCase (splitOn CHR '','' x)))"

section \<open>Priority weights\<close>

record PriorityWeights =
  priorityLevel :: jsnum
  taskFulfillment :: jsnum
  fairness :: jsnum
  efficiency :: jsnum
  resourceUtilization :: jsnum

datatype weightKey =
  PriorityLevel | TaskFulfillment | Fairness | Efficiency | ResourceUtilization

text \<open>\<open>setWeight p key v\<close> is \<open>{ ...p, [key]: v }\<close>.\<close>

fun setWeight :: "PriorityWeights \<Rightarrow> weightKey \<Rightarrow> jsnum \<Rightarrow> PriorityWeights" where
  "setWeight p PriorityLevel v = p\<lparr>priorityLevel := v\<rparr>"
| "setWeight p TaskFulfillment v = p\<lparr>taskFulfillment := v\<rparr>"
| "setWeight p Fairness v = p\<lparr>fairness := v\<rparr>"
| "setWeight p Efficiency v = p\<lparr>efficiency := v\<rparr>"
| "setWeight p ResourceUtilization v = p\<lparr>resourceUtilization := v\<rparr>"

text \<open>\<open>weightValues p\<close> is \<open>Object.values(p)\<close>, and \<open>weightTotal p\<close> its
  \<open>reduce((sum, val) => sum + val, 0)\<close>.\<close>

definition weightValues :: "PriorityWeights \<Rightarrow> jsnum list" where
  "weightValues p =
     [priorityLevel p, taskFulfillment p, fairness p, efficiency p, resourceUtilization p]"

definition weightTotal :: "PriorityWeights \<Rightarrow> jsnum" where
  "weightTotal p = foldl num_add (Fin 0) (weightValues p)"

text \<open>\<open>handleSliderChange\<close> of the prioritization component; the result is the vector
  that it passes to \<open>onPrioritiesUpdate\<close>.\<close>

definition handleSliderChange :: "PriorityWeights \<Rightarrow> weightKey \<Rightarrow> jsnum \<Rightarrow> PriorityWeights" where
  "handleSliderChange priorities key v =
     (let newPriorities = setWeight priorities key v;
          total = weightTotal newPriorities
      in if gt_zero total
         then \<lparr> priorityLevel = num_div (priorityLevel newPriorities) total,
                taskFulfillment = num_div (taskFulfillment newPriorities) total,
                fairness = num_div (fairness newPriorities) total,
                efficiency = num_div (efficiency newPriorities) total,
                resourceUtilization = num_div (resourceUtilization newPriorities) total \<rparr>
         else newPriorities)"

section \<open>Vocabulary of the properties\<close>

subsection \<open>Issues\<close>

text \<open>The issues that the validator builds, by the check that builds them.\<close>

definition missingValueIssue :: "DataFile \<Rightarrow> nat \<Rightarrow> nat \<Rightarrow> string \<Rightarrow> ValidationError" where
  "missingValueIssue file rowIndex colIndex header =
     \<lparr> fileId = fid file, row = int rowIndex, column = int colIndex, field = header,
       message = ''Missing required value in '' @ header,
       severity = Error, etype = Missing,
       suggestion = Some ''Provide a value for this required field'' \<rparr>"

definition priorityIssue :: "DataFile \<Rightarrow> nat \<Rightarrow> nat \<Rightarrow> string \<Rightarrow> string \<Rightarrow> ValidationError" where
  "priorityIssue file rowIndex colIndex header cellStr =
     \<lparr> fileId = fid file, row = int rowIndex, column = int colIndex, field = header,
       message = ''Priority must be between 1-5, got: '' @ cellStr,
       severity = Error, etype = Range,
       suggestion = Some ''Use values 1 (low) to 5 (high)'' \<rparr>"

definition durationIssue :: "DataFile \<Rightarrow> nat \<Rightarrow> nat \<Rightarrow> string \<Rightarrow> string \<Rightarrow> ValidationError" where
  "durationIssue file rowIndex colIndex header cellStr =
     \<lparr> fileId = fid file, row = int rowIndex, column = int colIndex, field = header,
       message = ''Duration must be a positive number, got: '' @ cellStr,
       severity = Error, etype = Range,
       suggestion = Some ''Use positive numbers (hours/days)'' \<rparr>"


definition duplicateIssue :: "DataFile \<Rightarrow> nat \<Rightarrow> nat \<Rightarrow> string \<Rightarrow> ValidationError" where
  "duplicateIssue file rowIndex idColumn idText =
     \<lparr> fileId = fid file, row = int rowIndex, column = int idColumn,
       field = headers file ! idColumn,
       message = ''Duplicate ID: '' @ idText,
       severity = Error, etype = Duplicate,
       suggestion = Some ''Ensure all IDs are unique'' \<rparr>"

text \<open>An issue of the priority check is known by its suggestion, which no other check
  uses.\<close>

definition fromPriorityCheck :: "ValidationError \<Rightarrow> bool" where
  "fromPriorityCheck e = (suggestion e = Some ''Use values 1 (low) to 5 (high)'')"

text \<open>The values of the identifier column, one per row, and the rows at which the
  validator reports a duplicate, in the order of the report.\<close>

definition idValues :: "DataFile \<Rightarrow> cell list" where
  "idValues file = map (\<lambda>r. row_get r (nat (findIdColumn (headers file)))) (data file)"

definition isDuplicateIssue :: "ValidationError \<Rightarrow> bool" where
  "isDuplicateIssue e = (etype e = Duplicate)"

definition duplicateRows :: "(rat \<Rightarrow> string) \<Rightarrow> DataFile \<Rightarrow> int list" where
  "duplicateRows fs file = map row (filter isDuplicateIssue (validateData fs file))"

text \<open>The positions of a list of values that hold a value which is not falsy and occurs
  at an earlier position: the second and later occurrences.\<close>

definition laterOccurrences :: "cell list \<Rightarrow> nat list" where
  "laterOccurrences vals =
     filter (\<lambda>i. \<not> falsy (vals ! i) \<and> vals ! i \<in> set (take i vals)) [0..<length vals]"




subsection \<open>CSV text\<close>

text \<open>What the scanner does once a field has been read: the text ends, or a comma
  starts the next field, or a line feed starts the next line.\<close>

fun afterField :: "string list \<Rightarrow> string \<Rightarrow> string \<Rightarrow> string list list" where
  "afterField rw s [] = [rw @ [s]]"
| "afterField rw s (c # cs) =
     (if c = CHR '','' then scanCSV CHR '','' FieldStart [] (rw @ [s]) cs
      else (rw @ [s]) # scanCSV CHR '','' FieldStart [] [] cs)"

definition fieldEnd :: "string \<Rightarrow> bool" where
  "fieldEnd rest = (rest = [] \<or> hd rest = CHR '','' \<or> hd rest = CHR 0x0A)"

definition lineEnd :: "string \<Rightarrow> bool" where
  "lineEnd rest = (rest = [] \<or> hd rest = CHR 0x0A)"

text \<open>One line of the export, from the texts of its cells.\<close>

definition csvLine :: "string list \<Rightarrow> string" where
  "csvLine fl = join '','' (map csvField fl)"

text \<open>A header as the upload leaves it: lower-case letters, digits and underscores.\<close>

definition normalized :: "string \<Rightarrow> bool" where
  "normalized h = (\<forall>c \<in> set h. isLowerAlnum c \<or> c = CHR ''_'')"

text \<open>A text that holds no carriage return, which could make the upload detect another
  line end, and none of the delimiters that it may guess instead of the comma.\<close>

definition plainText :: "string \<Rightarrow> bool" where
  "plainText s = list_all (\<lambda>c. c \<noteq> CHR 0x0D \<and> c \<notin> set (tl delimitersToGuess)) s"

text \<open>The grid of a file with every cell as the text that the export writes for it.\<close>

definition gridTexts :: "(rat \<Rightarrow> string) \<Rightarrow> DataFile \<Rightarrow> string list list" where
  "gridTexts fs file = map (map (cellText fs)) (data file)"

subsection \<open>Doubles\<close>

text \<open>The doubles are multiples of \<open>2^-1074\<close>; rounding a value in the normal range
  changes it by at most the fraction \<open>2^-53\<close> of itself, and a smaller value by at most
  \<open>2^-1075\<close>.\<close>

definition onGrid :: "rat \<Rightarrow> bool" where
  "onGrid a = (\<exists>k::int. a = of_int k * 2 powi (- 1074))"

definition unitRoundoff :: rat where
  "unitRoundoff = 1 / 2 ^ 53"

definition halfSubnormal :: rat where
  "halfSubnormal = 1 / 2 ^ 1075"

text \<open>A weight as the sliders, the templates and the normalisation itself produce them:
  a double from 0 to 1.\<close>

definition unitWeight :: "jsnum \<Rightarrow> bool" where
  "unitWeight n = (case n of Fin a \<Rightarrow> 0 \<le> a \<and> a \<le> 1 \<and> roundDouble a = Fin a | _ \<Rightarrow> False)"

fun finValue :: "jsnum \<Rightarrow> rat" where
  "finValue (Fin a) = a"
| "finValue n = 0"

fun isFin :: "jsnum \<Rightarrow> bool" where
  "isFin (Fin a) = True"
| "isFin n = False"

text \<open>The sum of the five weights as exact numbers, without the rounding of \<open>+\<close>.\<close>

definition exactSum :: "PriorityWeights \<Rightarrow> rat" where
  "exactSum p = sum_list (map finValue (weightValues p))"

subsection \<open>Patterns\<close>

text \<open>Two texts are the same, letter case aside, when their lower-case forms are equal.
  A matcher ignores letter case when it gives two such texts the same verdict; a compiler
  honours the flag \<open>i\<close> when every matcher that it gives under that flag does.\<close>

definition sameLetters :: "string \<Rightarrow> string \<Rightarrow> bool" where
  "sameLetters v w = (toLowerCase v = toLowerCase w)"

definition ignoresCase :: "(string \<Rightarrow> bool) \<Rightarrow> bool" where
  "ignoresCase matches = (\<forall>v w. sameLetters v w \<longrightarrow> matches v = matches w)"

definition honoursIgnoreCase :: "(string \<Rightarrow> string \<Rightarrow> (string \<Rightarrow> bool) option) \<Rightarrow> bool" where
  "honoursIgnoreCase regExp =
     (\<forall>x matches. regExp x ''i'' = Some matches \<longrightarrow> ignoresCase matches)"

section \<open>Example inputs\<close>

text \<open>The examples print no number that is not an integer, so any rendering of those
  will do.\<close>

definition noRendering :: "rat \<Rightarrow> string" where
  "noRendering r = []"

definition abacaFile :: DataFile where
  "abacaFile =
     \<lparr> fid = ''f1'', name = ''clients.csv'', ftype = ''clients'',
       headers = [''id'', ''name'', ''priority''],
       data = [[Str ''A'', Str ''Ann'', Str ''3''],
               [Str ''B'', Str ''Bob'', Str ''1''],
               [Str ''A'', Str ''Ada'', Str ''5''],
               [Str ''C'', Str ''Cy'', Str ''2''],
               [Str ''A'', Str ''Al'', Str ''4'']],
       originalData = [], errors = [] \<rparr>"

definition blankIdsFile :: DataFile where
  "blankIdsFile =
     \<lparr> fid = ''f2'', name = ''tasks.csv'', ftype = ''tasks'',
       headers = [''id'', ''title''],
       data = [[Str [], Str ''x''], [Str [], Str ''y''],
               [Str ''T'', Str ''z''], [Str ''T'', Str ''w'']],
       originalData = [], errors = [] \<rparr>"






definition customerFileName :: string where
  "customerFileName = ''customers.csv''"

definition plainHeaders :: "string list" where
  "plainHeaders = [''id'', ''name'', ''priority'']"

definition blankCellFile :: DataFile where
  "blankCellFile =
     \<lparr> fid = ''f4'', name = ''tasks.csv'', ftype = ''tasks'',
       headers = [''id''],
       data = [[Str ''A''], [Str []], [Str ''B'']],
       originalData = [], errors = [] \<rparr>"

definition quotedCellFile :: DataFile where
  "quotedCellFile =
     \<lparr> fid = ''f5'', name = ''tasks.csv'', ftype = ''tasks'',
       headers = [''id'', ''notes''],
       data = [[Str ''T1'', Str (''say '' @ [CHR 0x22] @ ''hi'' @ [CHR 0x22] @ '', then'' @ [CHR 0x0A] @ ''go'')],
               [Num (Fin 7), Null]],
       originalData = [], errors = [] \<rparr>"

definition semicolonCellFile :: DataFile where
  "semicolonCellFile =
     \<lparr> fid = ''f6'', name = ''tasks.csv'', ftype = ''tasks'',
       headers = [''notes''],
       data = [[Str ''a;b;c''], [Str ''d;e;f'']],
       originalData = [], errors = [] \<rparr>"

text \<open>Two guesses that are sound: the one that always falls back on the comma, and the
  one that takes the semicolon whenever the text holds one.\<close>

definition noGuess :: "string \<Rightarrow> char option" where
  "noGuess text = None"

definition semicolonGuess :: "string \<Rightarrow> char option" where
  "semicolonGuess text = (if CHR '';'' \<in> set text then Some CHR '';'' else None)"

text \<open>A condition on a field with the given operator and value, and the condition of
  the example.\<close>

definition condition :: "string \<Rightarrow> operator \<Rightarrow> string \<Rightarrow> RuleCondition" where
  "condition f p x = \<lparr> cfield = f, cop = p, cvalue = x, logicalOperator = None \<rparr>"

definition priorityIsHigh :: RuleCondition where
  "priorityIsHigh = condition ''priority'' Equals ''high''"

text \<open>Stand-ins for the two readers that the spec leaves open: texts of decimal digits
  as numbers, and literal patterns matched as substrings, with letter case ignored under
  the flag \<open>i\<close> and the empty pattern taken as invalid.\<close>

definition digitsToNumber :: "string \<Rightarrow> rat option" where
  "digitsToNumber s =
     (if s \<noteq> [] \<and> list_all isDigit s then Some (of_nat (digitsValue 10 s)) else None)"

definition literalPattern :: "string \<Rightarrow> string \<Rightarrow> (string \<Rightarrow> bool) option" where
  "literalPattern p flags =
     (if p = [] then None
      else Some (\<lambda>v. if CHR ''i'' \<in> set flags
                      then str_includes (toLowerCase v) (toLowerCase p)
                      else str_includes v p))"

text \<open>The default vector \<open>{0.3, 0.25, 0.2, 0.15, 0.1}\<close>; a decimal literal denotes the
  nearest double.\<close>

definition defaultWeights :: PriorityWeights where
  "defaultWeights =
     \<lparr> priorityLevel = roundDouble (3 / 10), taskFulfillment = roundDouble (1 / 4),
       fairness = roundDouble (1 / 5), efficiency = roundDouble (3 / 20),
       resourceUtilization = roundDouble (1 / 10) \<rparr>"

section \<open>Properties\<close>

subsection \<open>Evaluated texts\<close>

lemma lower_texts:
  "toLowerCase ''priority'' = ''priority''"
  "toLowerCase ''duration'' = ''duration''"
  "toLowerCase ''notes'' = ''notes''"
  "toLowerCase ''email'' = ''email''"
  by code_simp+

lemma includes_priority:
  "str_includes ''priority'' ''priority''" "\<not> str_includes ''priority'' ''email''"
  "\<not> str_includes ''priority'' ''duration''" "\<not> str_includes ''priority'' ''budget''"
  "\<not> str_includes ''priority'' ''skill''" "\<not> str_includes ''priority'' ''id''"
  "\<not> str_includes ''priority'' ''name''"
  by code_simp+

lemma includes_duration:
  "str_includes ''duration'' ''duration''" "\<not> str_includes ''duration'' ''email''"
  "\<not> str_includes ''duration'' ''id''" "\<not> str_includes ''duration'' ''name''"
  by code_simp+

lemma trim_texts:
  "trim ''3.5'' = ''3.5''" "trim ''0'' = ''0''" "trim ''6'' = ''6''" "trim ''abc'' = ''abc''"
  "trim ''NaN'' = ''NaN''" "trim ''false'' = ''false''" "trim ''null'' = ''null''"
  "trim ''undefined'' = ''undefined''" "trim [] = []"
  by code_simp+

lemma trim_no_break_space:
  "trim [CHR 0xA0, CHR ''3'', CHR 0xA0] = ''3''" "trim [CHR 0xA0] = []"
  "parseInt ''3'' = Some 3"
  by code_simp+


lemma parseInt_texts:
  "parseInt ''3.5'' = Some 3" "parseInt ''0'' = Some 0" "parseInt ''6'' = Some 6"
  "parseInt ''abc'' = None"
  by code_simp+

lemma parseFloat_zero: "parseFloat ''0'' = Fin 0"
  by code_simp


subsection \<open>The cell validator\<close>

lemma validateCell_empty:
  "falsy c \<or> trim (cellToString fs c) = [] \<Longrightarrow>
   validateCell fs df rowIndex colIndex header c =
     (if str_includes (toLowerCase header) ''id'' \<or> str_includes (toLowerCase header) ''name''
         \<or> str_includes (toLowerCase header) ''email''
      then [missingValueIssue df rowIndex colIndex header] else [])"
  by (simp add: validateCell_def missingValueIssue_def Let_def)

lemma validateCell_fields:
  "e \<in> set (validateCell fs df rowIndex colIndex header c) \<Longrightarrow>
   etype e \<noteq> Duplicate \<and> row e = int rowIndex \<and> column e = int colIndex \<and> field e = header
   \<and> fileId e = fid df"
  by (auto simp add: validateCell_def Let_def split: if_splits)

text \<open>
  C1 (as amended). For a cell that is not empty, in a column whose header contains
  "priority", the priority check emits no issue exactly when \<open>parseInt\<close> of the trimmed value
  is an integer from 1 to 5, and otherwise emits exactly one issue, of kind range and
  severity error. \<open>parseInt\<close> reads the leading digits and ignores what follows them.
\<close>

theorem priority_check:
  assumes "str_includes (toLowerCase header) ''priority''"
    and "\<not> falsy c" and "trim (cellToString fs c) \<noteq> []"
  shows "filter fromPriorityCheck (validateCell fs df rowIndex colIndex header c) =
     (if (\<exists>p. parseInt (trim (cellToString fs c)) = Some p \<and> 1 \<le> p \<and> p \<le> 5) then []
      else [priorityIssue df rowIndex colIndex header (trim (cellToString fs c))])"
  using assms
  by (auto simp add: validateCell_def Let_def fromPriorityCheck_def priorityIssue_def
      split: option.splits)

text \<open>The values "0", "6" and "abc" each give the one range error; "3.5" is read as 3
  and gives none, and neither does "3" between two no-break spaces, which \<open>trim\<close>
  removes.\<close>

theorem priority_check_witness:
  "str_includes (toLowerCase ''priority'') ''priority''
   \<and> \<not> falsy (Str ''0'') \<and> trim (cellToString noRendering (Str ''0'')) \<noteq> []
   \<and> filter fromPriorityCheck (validateCell noRendering abacaFile 0 2 ''priority'' (Str ''0''))
       = [priorityIssue abacaFile 0 2 ''priority'' ''0'']
   \<and> filter fromPriorityCheck (validateCell noRendering abacaFile 0 2 ''priority'' (Str ''6''))
       = [priorityIssue abacaFile 0 2 ''priority'' ''6'']
   \<and> filter fromPriorityCheck (validateCell noRendering abacaFile 0 2 ''priority'' (Str ''abc''))
       = [priorityIssue abacaFile 0 2 ''priority'' ''abc'']
   \<and> filter fromPriorityCheck (validateCell noRendering abacaFile 0 2 ''priority'' (Str ''3.5''))
       = []
   \<and> filter fromPriorityCheck
         (validateCell noRendering abacaFile 0 2 ''priority'' (Str [CHR 0xA0, CHR ''3'', CHR 0xA0]))
       = []
   \<and> etype (priorityIssue abacaFile 0 2 ''priority'' ''0'') = Range
   \<and> severity (priorityIssue abacaFile 0 2 ''priority'' ''0'') = Error"
  using priority_check[where header="''priority''" and c="Str ''0''" and fs=noRendering
      and df=abacaFile and rowIndex=0 and colIndex=2]
    priority_check[where header="''priority''" and c="Str ''6''" and fs=noRendering
      and df=abacaFile and rowIndex=0 and colIndex=2]
    priority_check[where header="''priority''" and c="Str ''abc''" and fs=noRendering
      and df=abacaFile and rowIndex=0 and colIndex=2]
    priority_check[where header="''priority''" and c="Str ''3.5''" and fs=noRendering
      and df=abacaFile and rowIndex=0 and colIndex=2]
    priority_check[where header="''priority''" and c="Str [CHR 0xA0, CHR ''3'', CHR 0xA0]"
      and fs=noRendering and df=abacaFile and rowIndex=0 and colIndex=2]
  by (simp add: lower_texts includes_priority trim_texts parseInt_texts priorityIssue_def
      trim_no_break_space)

text \<open>C1 as stated fails: the value "3.5" in a priority column yields no issue at
  all.\<close>

theorem priority_decimal_accepted:
  "validateCell noRendering abacaFile 0 2 ''priority'' (Str ''3.5'') = []"
  by (simp add: validateCell_def lower_texts trim_texts parseInt_texts includes_priority)

text \<open>
  C9. A falsy cell of any type is treated as empty: it yields the one missing-value issue
  when the header contains "id", "name" or "email", and nothing otherwise, whatever the
  later checks would say. So in a column whose header contains "duration" (and none of
  those three) the number 0 yields no issue, while the string "0" yields the range error
  of the duration check.
\<close>

theorem falsy_cell_is_empty:
  "(falsy c \<longrightarrow>
      validateCell fs df rowIndex colIndex header c =
        (if str_includes (toLowerCase header) ''id'' \<or> str_includes (toLowerCase header) ''name''
            \<or> str_includes (toLowerCase header) ''email''
         then [missingValueIssue df rowIndex colIndex header] else []))
   \<and> (str_includes (toLowerCase header) ''duration''
        \<and> \<not> str_includes (toLowerCase header) ''id''
        \<and> \<not> str_includes (toLowerCase header) ''name''
        \<and> \<not> str_includes (toLowerCase header) ''email'' \<longrightarrow>
        validateCell fs df rowIndex colIndex header (Num (Fin 0)) = []
        \<and> durationIssue df rowIndex colIndex header ''0''
             \<in> set (validateCell fs df rowIndex colIndex header (Str ''0'')))"
proof -
  have a: "falsy c \<longrightarrow>
      validateCell fs df rowIndex colIndex header c =
        (if str_includes (toLowerCase header) ''id'' \<or> str_includes (toLowerCase header) ''name''
            \<or> str_includes (toLowerCase header) ''email''
         then [missingValueIssue df rowIndex colIndex header] else [])"
    using validateCell_empty by blast
  have b: "validateCell fs df rowIndex colIndex header (Num (Fin 0)) = []"
    if "\<not> str_includes (toLowerCase header) ''id''"
       "\<not> str_includes (toLowerCase header) ''name''"
       "\<not> str_includes (toLowerCase header) ''email''"
    using that validateCell_empty[where c="Num (Fin 0)" and header=header] by simp
  have c: "durationIssue df rowIndex colIndex header ''0''
             \<in> set (validateCell fs df rowIndex colIndex header (Str ''0''))"
    if "str_includes (toLowerCase header) ''duration''"
    using that
    by (simp add: validateCell_def Let_def trim_texts parseFloat_zero le_zero_def
        durationIssue_def)
  show ?thesis using a b c by blast
qed

theorem falsy_cell_is_empty_witness:
  "falsy (Bool False)
   \<and> validateCell noRendering abacaFile 1 0 ''id'' (Bool False)
       = [missingValueIssue abacaFile 1 0 ''id'']
   \<and> etype (missingValueIssue abacaFile 1 0 ''id'') = Missing
   \<and> severity (missingValueIssue abacaFile 1 0 ''id'') = Error
   \<and> str_includes (toLowerCase ''duration'') ''duration''
   \<and> \<not> str_includes (toLowerCase ''duration'') ''id''
   \<and> \<not> str_includes (toLowerCase ''duration'') ''name''
   \<and> \<not> str_includes (toLowerCase ''duration'') ''email''
   \<and> validateCell noRendering abacaFile 1 3 ''duration'' (Num (Fin 0)) = []
   \<and> durationIssue abacaFile 1 3 ''duration'' ''0''
        \<in> set (validateCell noRendering abacaFile 1 3 ''duration'' (Str ''0''))
   \<and> etype (durationIssue abacaFile 1 3 ''duration'' ''0'') = Range
   \<and> severity (durationIssue abacaFile 1 3 ''duration'' ''0'') = Error"
proof -
  have i: "toLowerCase ''id'' = ''id''" "str_includes ''id'' ''id''"
    by code_simp+
  show ?thesis
    using falsy_cell_is_empty[where c="Bool False" and fs=noRendering and df=abacaFile
        and rowIndex=1 and colIndex=0 and header="''id''"]
      falsy_cell_is_empty[where c="Bool False" and fs=noRendering and df=abacaFile
        and rowIndex=1 and colIndex=3 and header="''duration''"]
    by (simp add: lower_texts includes_duration i missingValueIssue_def durationIssue_def)
qed

subsection \<open>The file validator\<close>

lemma set_concat_indexed:
  "set (concat (map (\<lambda>(i, x). F i x) (indexed xs))) = (\<Union>i<length xs. set (F i (xs ! i)))"
proof -
  have "set (indexed xs) = (\<lambda>i. (i, xs ! i)) ` {..<length xs}"
    by (auto simp add: indexed_def in_set_enumerate_eq image_iff)
  then show ?thesis by auto
qed

lemma cellErrors_iff:
  "e \<in> set (cellErrors fs df) \<longleftrightarrow>
   (\<exists>i < length (data df). \<exists>j < length (headers df).
      e \<in> set (validateCell fs df i j (headers df ! j) (row_get (data df ! i) j)))"
  unfolding cellErrors_def set_concat_indexed by auto

lemma cellErrors_fields:
  "e \<in> set (cellErrors fs df) \<Longrightarrow> etype e \<noteq> Duplicate \<and> 0 \<le> row e"
  by (auto simp add: cellErrors_iff dest!: validateCell_fields)

lemma duplicateScan_fields:
  "e \<in> set (duplicateScan fs df idc ids rs) \<Longrightarrow>
   etype e = Duplicate \<and> severity e = Error \<and> column e = int idc \<and> 0 \<le> row e"
  by (induction rs arbitrary: ids) (auto simp add: Let_def split: if_splits)

text \<open>The rows reported by the scan, for any set of values seen so far and any first row
  index.\<close>

lemma duplicateScan_rows:
  "map row (duplicateScan fs df idc ids (enumerate n rs)) =
   map (\<lambda>i. int (n + i))
     (filter (\<lambda>i. \<not> falsy (map (\<lambda>r. row_get r idc) rs ! i)
                 \<and> (map (\<lambda>r. row_get r idc) rs ! i \<in> ids
                    \<or> map (\<lambda>r. row_get r idc) rs ! i \<in> set (take i (map (\<lambda>r. row_get r idc) rs))))
        [0..<length rs])"
proof (induction rs arbitrary: n ids)
  case Nil
  then show ?case by simp
next
  case (Cons r rs)
  have upt: "[0..<length (r # rs)] = 0 # map Suc [0..<length rs]"
    by (simp add: upt_conv_Cons map_Suc_upt del: upt_Suc)
  show ?case
    unfolding upt
    by (simp add: Let_def Cons.IH filter_map comp_def ac_simps disj_comms del: upt_Suc)
qed

lemma filter_duplicates:
  "filter isDuplicateIssue (validateData fs df) =
     (if findIdColumn (headers df) \<noteq> - 1
      then duplicateScan fs df (nat (findIdColumn (headers df))) {} (indexed (data df))
      else [])"
proof -
  have a: "filter isDuplicateIssue (map (missingColumnError df) (missingColumns df)) = []"
    by (simp add: filter_empty_conv missingColumnError_def isDuplicateIssue_def)
  have b: "filter isDuplicateIssue (cellErrors fs df) = []"
    using cellErrors_fields by (auto simp add: filter_empty_conv isDuplicateIssue_def)
  have c: "filter isDuplicateIssue (duplicateScan fs df idc ids rs) = duplicateScan fs df idc ids rs"
    for idc ids rs
    using duplicateScan_fields by (auto simp add: filter_id_conv isDuplicateIssue_def)
  show ?thesis
    by (simp add: validateData_def Let_def a b c)
qed

lemma duplicateRows_eq:
  assumes "findIdColumn (headers df) \<noteq> - 1"
  shows "duplicateRows fs df = map int (laterOccurrences (idValues df))"
  unfolding duplicateRows_def filter_duplicates indexed_def laterOccurrences_def idValues_def
  using assms duplicateScan_rows[where fs=fs and df=df and idc="nat (findIdColumn (headers df))"
      and ids="{}" and n=0 and rs="data df"]
  by simp

lemma duplicateRows_none:
  assumes "findIdColumn (headers df) = - 1"
  shows "duplicateRows fs df = []"
  unfolding duplicateRows_def filter_duplicates using assms by simp

lemma duplicate_severity:
  assumes "e \<in> set (validateData fs df)" "isDuplicateIssue e"
  shows "severity e = Error"
proof -
  from assms have "e \<in> set (filter isDuplicateIssue (validateData fs df))" by simp
  then show ?thesis
    unfolding filter_duplicates using duplicateScan_fields by (auto split: if_splits)
qed

lemma abaca_eval:
  "findIdColumn (headers abacaFile) = 0"
  "laterOccurrences (idValues abacaFile) = [2, 4]"
  "validateData noRendering abacaFile =
     [missingColumnError abacaFile ''email'',
      duplicateIssue abacaFile 2 0 ''A'', duplicateIssue abacaFile 4 0 ''A'']"
  by code_simp+

lemma blank_eval:
  "findIdColumn (headers blankIdsFile) = 0"
  "idValues blankIdsFile = [Str [], Str [], Str ''T'', Str ''T'']"
  "laterOccurrences (idValues blankIdsFile) = [3]"
  "validateData noRendering blankIdsFile =
     [missingColumnError blankIdsFile ''duration'', missingColumnError blankIdsFile ''priority'',
      missingValueIssue blankIdsFile 0 0 ''id'', missingValueIssue blankIdsFile 1 0 ''id'',
      duplicateIssue blankIdsFile 3 0 ''T'']"
  by code_simp+

text \<open>
  C2 (as amended). In a file where the validator finds an identifier column, the rows at
  which it reports a duplicate are, in order, exactly the rows whose identifier is not
  falsy and occurs in an earlier row: each second and later occurrence of such a value,
  never a first occurrence. Every such issue has kind duplicate and severity error.
\<close>

theorem duplicate_rows:
  assumes "findIdColumn (headers df) \<noteq> - 1"
  shows "duplicateRows fs df = map int (laterOccurrences (idValues df))
       \<and> (\<forall>e \<in> set (validateData fs df). isDuplicateIssue e \<longrightarrow> severity e = Error)"
  using duplicateRows_eq[OF assms] duplicate_severity by blast

text \<open>For the identifier values A, B, A, C, A the duplicates are reported at rows 2 and 4
  only.\<close>

theorem duplicate_rows_witness:
  "findIdColumn (headers abacaFile) \<noteq> - 1
   \<and> idValues abacaFile = [Str ''A'', Str ''B'', Str ''A'', Str ''C'', Str ''A'']
   \<and> duplicateRows noRendering abacaFile = [2, 4]
   \<and> duplicateIssue abacaFile 2 0 ''A'' \<in> set (validateData noRendering abacaFile)
   \<and> isDuplicateIssue (duplicateIssue abacaFile 2 0 ''A'')
   \<and> severity (duplicateIssue abacaFile 2 0 ''A'') = Error"
proof -
  have h: "findIdColumn (headers abacaFile) \<noteq> - 1"
    by (simp add: abaca_eval(1))
  note t = duplicate_rows[OF h, where fs=noRendering]
  have v: "idValues abacaFile = [Str ''A'', Str ''B'', Str ''A'', Str ''C'', Str ''A'']"
    by code_simp
  have r: "duplicateRows noRendering abacaFile = [2, 4]"
    using t by (simp add: abaca_eval(2))
  have m: "duplicateIssue abacaFile 2 0 ''A'' \<in> set (validateData noRendering abacaFile)"
    by (simp add: abaca_eval(3))
  have d: "isDuplicateIssue (duplicateIssue abacaFile 2 0 ''A'')"
    by (simp add: duplicateIssue_def isDuplicateIssue_def)
  have "severity (duplicateIssue abacaFile 2 0 ''A'') = Error"
    using t m d by blast
  with h v r m d show ?thesis by blast
qed

text \<open>C2 as stated fails: rows 0 and 1 both hold the empty identifier, and no duplicate
  is reported at row 1.\<close>

theorem blank_identifier_repeated:
  "findIdColumn (headers blankIdsFile) = 0
   \<and> idValues blankIdsFile = [Str [], Str [], Str ''T'', Str ''T'']
   \<and> duplicateRows noRendering blankIdsFile = [3]"
proof -
  have "duplicateRows noRendering blankIdsFile = [3]"
    using duplicateRows_eq[where df=blankIdsFile and fs=noRendering]
    by (simp add: blank_eval(1,3))
  then show ?thesis by (simp add: blank_eval(1,2))
qed

text \<open>
  C10. Every duplicate issue sits at a row whose identifier is not falsy and was seen in
  an earlier row; a row whose identifier is falsy is never reported, however many rows
  share that value.
\<close>

theorem falsy_id_no_duplicate:
  "(\<forall>e \<in> set (validateData fs df). isDuplicateIssue e \<longrightarrow>
      findIdColumn (headers df) \<noteq> - 1
      \<and> (\<exists>i < length (data df). row e = int i \<and> \<not> falsy (idValues df ! i)
            \<and> idValues df ! i \<in> set (take i (idValues df))))
   \<and> (\<forall>i < length (data df). falsy (idValues df ! i) \<longrightarrow> int i \<notin> set (duplicateRows fs df))"
proof -
  have rows: "set (duplicateRows fs df) \<subseteq> int ` set (laterOccurrences (idValues df))"
    using duplicateRows_eq[of df fs] duplicateRows_none[of df fs]
    by (cases "findIdColumn (headers df) = - 1") auto
  have 1: "findIdColumn (headers df) \<noteq> - 1
      \<and> (\<exists>i < length (data df). row e = int i \<and> \<not> falsy (idValues df ! i)
            \<and> idValues df ! i \<in> set (take i (idValues df)))"
    if e: "e \<in> set (validateData fs df)" "isDuplicateIssue e" for e
  proof -
    from e have m: "e \<in> set (filter isDuplicateIssue (validateData fs df))" by simp
    then have idc: "findIdColumn (headers df) \<noteq> - 1"
      by (auto simp add: filter_duplicates split: if_splits)
    from m have "row e \<in> set (duplicateRows fs df)"
      unfolding duplicateRows_def by (simp del: set_filter)
    then obtain i where "row e = int i" "i \<in> set (laterOccurrences (idValues df))"
      using rows by auto
    then have "i < length (data df) \<and> row e = int i \<and> \<not> falsy (idValues df ! i)
           \<and> idValues df ! i \<in> set (take i (idValues df))"
      by (auto simp add: laterOccurrences_def idValues_def)
    with idc show ?thesis by blast
  qed
  have 2: "int i \<notin> set (duplicateRows fs df)" if "falsy (idValues df ! i)" for i
    using that rows by (auto simp add: laterOccurrences_def)
  show ?thesis using 1 2 by blast
qed

theorem falsy_id_no_duplicate_witness:
  "duplicateIssue blankIdsFile 3 0 ''T'' \<in> set (validateData noRendering blankIdsFile)
   \<and> isDuplicateIssue (duplicateIssue blankIdsFile 3 0 ''T'')
   \<and> row (duplicateIssue blankIdsFile 3 0 ''T'') = 3
   \<and> \<not> falsy (idValues blankIdsFile ! 3)
   \<and> idValues blankIdsFile ! 3 \<in> set (take 3 (idValues blankIdsFile))
   \<and> 1 < length (data blankIdsFile)
   \<and> falsy (idValues blankIdsFile ! 1)
   \<and> idValues blankIdsFile ! 1 = idValues blankIdsFile ! 0
   \<and> 1 \<notin> set (duplicateRows noRendering blankIdsFile)"
proof -
  note t = falsy_id_no_duplicate[where df=blankIdsFile and fs=noRendering]
  have m: "duplicateIssue blankIdsFile 3 0 ''T'' \<in> set (validateData noRendering blankIdsFile)"
    by (simp add: blank_eval(4))
  have d: "isDuplicateIssue (duplicateIssue blankIdsFile 3 0 ''T'')"
      "row (duplicateIssue blankIdsFile 3 0 ''T'') = 3"
    by (simp_all add: duplicateIssue_def isDuplicateIssue_def)
  have l: "1 < length (data blankIdsFile)"
    by (simp add: blankIdsFile_def)
  have f: "\<not> falsy (idValues blankIdsFile ! 3)"
      "idValues blankIdsFile ! 3 \<in> set (take 3 (idValues blankIdsFile))"
      "falsy (idValues blankIdsFile ! 1)"
      "idValues blankIdsFile ! 1 = idValues blankIdsFile ! 0"
    by (simp_all add: blank_eval(2))
  from t have "1 < length (data blankIdsFile) \<longrightarrow> falsy (idValues blankIdsFile ! 1)
      \<longrightarrow> int 1 \<notin> set (duplicateRows noRendering blankIdsFile)"
    by blast
  with l f have "1 \<notin> set (duplicateRows noRendering blankIdsFile)" by simp
  with m d l f show ?thesis by blast
qed






subsection \<open>Exceptions\<close>
















subsection \<open>File category inference\<close>

text \<open>
  C6. A file named \<open>customers.csv\<close> whose headers name no category is classified as
  tasks: the file name is searched for "client" but not for "customer", while the
  header string is searched for both.
\<close>

theorem customer_filename_is_tasks:
  "detectFileType customerFileName plainHeaders = ''tasks''"
  by code_simp

subsection \<open>Export and upload of CSV text\<close>

lemma scan_unquoted:
  "\<not> needsQuotes s \<Longrightarrow> fieldEnd rest \<Longrightarrow>
   scanCSV CHR '','' Unquoted fld rw (s @ rest) = afterField rw (fld @ s) rest"
proof (induction s arbitrary: fld)
  case Nil
  then show ?case by (cases rest) (auto simp add: fieldEnd_def)
next
  case (Cons c s)
  then show ?case by (auto simp add: needsQuotes_def)
qed

lemma scan_quoted:
  "fieldEnd rest \<Longrightarrow>
   scanCSV CHR '','' Quoted fld rw (doubleQuotes s @ CHR 0x22 # rest) = afterField rw (fld @ s) rest"
proof (induction s arbitrary: fld)
  case Nil
  then show ?case by (cases rest) (auto simp add: fieldEnd_def)
next
  case (Cons c s)
  then show ?case by simp
qed

lemma scan_field:
  assumes "fieldEnd rest"
  shows "scanCSV CHR '','' FieldStart [] rw (csvField s @ rest) = afterField rw s rest"
proof (cases "needsQuotes s")
  case True
  then show ?thesis using scan_quoted[OF assms, of "[]" rw s] by (simp add: csvField_def)
next
  case False
  show ?thesis
  proof (cases s)
    case Nil
    then show ?thesis using assms by (cases rest) (auto simp add: csvField_def needsQuotes_def fieldEnd_def)
  next
    case (Cons c s')
    then have "\<not> needsQuotes s'" "c \<noteq> CHR 0x22" "c \<noteq> CHR '',''" "c \<noteq> CHR 0x0A"
      using False by (auto simp add: needsQuotes_def)
    then show ?thesis using False Cons scan_unquoted[OF _ assms, of s' "[c]" rw]
      by (simp add: csvField_def)
  qed
qed

lemma scan_line:
  assumes "lineEnd rest" "fl \<noteq> []"
  shows "scanCSV CHR '','' FieldStart [] rw (join '','' (map csvField fl) @ rest)
         = (if rest = [] then [rw @ fl] else (rw @ fl) # scanCSV CHR '','' FieldStart [] [] (tl rest))"
  using assms(2)
proof (induction fl arbitrary: rw rule: list_nonempty_induct)
  case (single x)
  have "fieldEnd rest" using assms(1) by (auto simp add: lineEnd_def fieldEnd_def)
  then show ?case using scan_field[of rest rw x] assms(1)
    by (cases rest) (auto simp add: lineEnd_def)
next
  case (cons x xs)
  then obtain y ys where xs: "xs = y # ys" by (cases xs) auto
  have fe: "fieldEnd (CHR '','' # join '','' (map csvField xs) @ rest)" by (simp add: fieldEnd_def)
  have "scanCSV CHR '','' FieldStart [] rw (join '','' (map csvField (x # xs)) @ rest)
        = scanCSV CHR '','' FieldStart [] rw (csvField x @ (CHR '','' # join '','' (map csvField xs) @ rest))"
    by (simp add: xs)
  also have "\<dots> = scanCSV CHR '','' FieldStart [] (rw @ [x]) (join '','' (map csvField xs) @ rest)"
    using scan_field[OF fe] by simp
  also have "\<dots> = (if rest = [] then [(rw @ [x]) @ xs] else ((rw @ [x]) @ xs) # scanCSV CHR '','' FieldStart [] [] (tl rest))"
    using cons.IH by simp
  finally show ?case by simp
qed


lemma scan_lines:
  assumes "ls \<noteq> []" "\<forall>fl \<in> set ls. fl \<noteq> []"
  shows "scanCSV CHR '','' FieldStart [] [] (join [CHR 0x0A] (map csvLine ls)) = ls"
  using assms
proof (induction ls rule: list_nonempty_induct)
  case (single x)
  then show ?case using scan_line[of "[]" x "[]"] by (simp add: lineEnd_def csvLine_def)
next
  case (cons x xs)
  then obtain y ys where xs: "xs = y # ys" by (cases xs) auto
  have le: "lineEnd (CHR 0x0A # join [CHR 0x0A] (map csvLine xs))" by (simp add: lineEnd_def)
  have "scanCSV CHR '','' FieldStart [] [] (join [CHR 0x0A] (map csvLine (x # xs)))
        = scanCSV CHR '','' FieldStart [] [] (join '','' (map csvField x) @ (CHR 0x0A # join [CHR 0x0A] (map csvLine xs)))"
    by (simp add: xs csvLine_def)
  also have "\<dots> = x # scanCSV CHR '','' FieldStart [] [] (join [CHR 0x0A] (map csvLine xs))"
    using scan_line[OF le, of x "[]"] cons.prems by simp
  finally show ?case using cons by simp
qed

lemma normal_chars:
  "list_all (\<lambda>c. toLowerChar c = c \<and> \<not> isWhiteSpace c \<and> c \<noteq> CHR '','' \<and> c \<noteq> CHR 0x22
                  \<and> c \<noteq> CHR 0x0A \<and> c \<notin> set (tl delimitersToGuess))
     ''abcdefghijklmnopqrstuvwxyz0123456789_''"
  by code_simp

lemma normal_char:
  assumes "isLowerAlnum c \<or> c = CHR ''_''"
  shows "toLowerChar c = c" "\<not> isWhiteSpace c" "c \<noteq> CHR '',''" "c \<noteq> CHR 0x22" "c \<noteq> CHR 0x0A"
    "c \<notin> set (tl delimitersToGuess)"
proof -
  have "c \<in> set ''abcdefghijklmnopqrstuvwxyz0123456789_''"
    using assms unfolding isLowerAlnum_def by auto
  then have "toLowerChar c = c \<and> \<not> isWhiteSpace c \<and> c \<noteq> CHR '','' \<and> c \<noteq> CHR 0x22
                  \<and> c \<noteq> CHR 0x0A \<and> c \<notin> set (tl delimitersToGuess)"
    using normal_chars unfolding list_all_iff by blast
  then show "toLowerChar c = c" "\<not> isWhiteSpace c" "c \<noteq> CHR '',''" "c \<noteq> CHR 0x22" "c \<noteq> CHR 0x0A"
      "c \<notin> set (tl delimitersToGuess)"
    by blast+
qed

lemma trim_no_space:
  assumes "\<forall>c \<in> set s. \<not> isWhiteSpace c"
  shows "trim s = s"
proof -
  have a: "dropWhile isWhiteSpace s = s"
    using assms by (cases s) auto
  have b: "dropWhile isWhiteSpace (rev s) = rev s"
    using assms by (cases "rev s") (auto simp add: rev_eq_Cons_iff)
  show ?thesis by (simp add: trim_def trimStart_def trimEnd_def a b)
qed

lemma normalized_header:
  assumes "normalized h"
  shows "normalizeHeader h = h" "csvField h = h"
proof -
  have c: "isLowerAlnum x \<or> x = CHR ''_''" if "x \<in> set h" for x
    using assms that unfolding normalized_def by blast
  have t: "trim h = h"
  proof (rule trim_no_space, rule ballI)
    fix x assume "x \<in> set h"
    then show "\<not> isWhiteSpace x" using c normal_char(2) by blast
  qed
  have l: "toLowerCase h = h"
    unfolding toLowerCase_def
  proof (rule map_idI)
    fix x assume "x \<in> set h"
    then show "toLowerChar x = x" using c normal_char(1) by blast
  qed
  have m: "map (\<lambda>c. if isLowerAlnum c then c else CHR ''_'') h = h"
  proof (rule map_idI)
    fix x assume "x \<in> set h"
    then have "isLowerAlnum x \<or> x = CHR ''_''" using c by blast
    then show "(if isLowerAlnum x then x else CHR ''_'') = x" by (cases "isLowerAlnum x") simp_all
  qed
  show "normalizeHeader h = h"
    unfolding normalizeHeader_def t l by (rule m)
  have "\<not> needsQuotes h"
    unfolding needsQuotes_def using c normal_char(3,4,5) by blast
  then show "csvField h = h"
    unfolding csvField_def by simp
qed

lemma generateCleanedCSV_lines:
  assumes "\<forall>h \<in> set (headers df). normalized h"
  shows "generateCleanedCSV fs df = join [CHR 0x0A] (map csvLine (headers df # gridTexts fs df))"
proof -
  have "map csvField (headers df) = headers df"
    using assms normalized_header(2) by (simp add: map_idI)
  then show ?thesis
    by (simp add: generateCleanedCSV_def csvLine_def gridTexts_def comp_def Let_def)
qed

lemma set_doubleQuotes: "set (doubleQuotes s) = set s"
  by (induction s) auto

lemma set_csvField: "set (csvField s) \<subseteq> insert (CHR 0x22) (set s)"
  by (auto simp add: csvField_def set_doubleQuotes)

lemma set_join: "set (join sep xs) \<subseteq> set sep \<union> (\<Union>x \<in> set xs. set x)"
  by (induction sep xs rule: join.induct) auto

lemma set_csvLine: "set (csvLine fl) \<subseteq> {CHR '','', CHR 0x22} \<union> (\<Union>x \<in> set fl. set x)"
proof -
  have "set (csvLine fl) \<subseteq> set '','' \<union> (\<Union>x \<in> set (map csvField fl). set x)"
    unfolding csvLine_def by (rule set_join)
  then show ?thesis using set_csvField by fastforce
qed

text \<open>The characters of the export are those of its fields, commas, quotes and line
  feeds.\<close>

lemma set_lines:
  "set (join [CHR 0x0A] (map csvLine ls))
     \<subseteq> {CHR 0x0A, CHR '','', CHR 0x22} \<union> (\<Union>fl \<in> set ls. \<Union>x \<in> set fl. set x)"
proof -
  have "set (join [CHR 0x0A] (map csvLine ls))
          \<subseteq> set [CHR 0x0A] \<union> (\<Union>l \<in> set (map csvLine ls). set l)"
    by (rule set_join)
  then show ?thesis using set_csvLine by fastforce
qed

lemma guess_comma:
  assumes "soundGuess guess" "\<forall>d \<in> set (tl delimitersToGuess). d \<notin> set text"
  shows "(case guess text of Some c \<Rightarrow> c | None \<Rightarrow> CHR '','') = CHR '',''"
proof (cases "guess text")
  case None
  then show ?thesis by simp
next
  case (Some d)
  then have "d \<in> set delimitersToGuess" "d \<in> set text"
    using assms(1) unfolding soundGuess_def by blast+
  moreover have "delimitersToGuess = CHR '','' # tl delimitersToGuess"
    by (simp add: delimitersToGuess_def)
  ultimately have "d = CHR '',''" using assms(2) by (metis set_ConsD)
  then show ?thesis using Some by simp
qed

lemma sound_guesses: "soundGuess noGuess" "soundGuess semicolonGuess"
  by (auto simp add: soundGuess_def noGuess_def semicolonGuess_def delimitersToGuess_def
      split: if_splits)

text \<open>
  C5 (as amended). Let the headers of a file be as the upload leaves them (lower-case
  letters, digits and underscores), with a header line that is not empty; let no row of
  the grid be written as an empty line (no row is empty or a single cell with empty
  text); and let no cell hold a carriage return or a delimiter that the upload may guess
  instead of the comma.
  Then writing the headers and the grid as CSV text and reading that text back gives the
  same headers and, row by row and column by column, the texts of the same cells; commas,
  double quotes and line feeds inside a cell are recovered.
\<close>

theorem csv_round_trip:
  assumes "soundGuess guess"
    and "\<forall>h \<in> set (headers df). normalized h"
    and "headers df \<noteq> []" and "\<not> emptyLine (headers df)"
    and "\<forall>r \<in> set (gridTexts fs df). r \<noteq> [] \<and> \<not> emptyLine r \<and> list_all plainText r"
  shows "processCSV guess (generateCleanedCSV fs df) = Some (headers df, gridTexts fs df)"
proof -
  let ?text = "generateCleanedCSV fs df"
  have lines: "?text = join [CHR 0x0A] (map csvLine (headers df # gridTexts fs df))"
    by (rule generateCleanedCSV_lines[OF assms(2)])
  have plain: "\<forall>d \<in> set (tl delimitersToGuess). d \<notin> set ?text"
  proof
    fix d assume d: "d \<in> set (tl delimitersToGuess)"
    then have sep: "d \<notin> {CHR 0x0A, CHR '','', CHR 0x22}"
      by (auto simp add: delimitersToGuess_def)
    have hd: "d \<notin> set h" if "h \<in> set (headers df)" for h
    proof
      assume "d \<in> set h"
      then have "isLowerAlnum d \<or> d = CHR ''_''"
        using assms(2) that unfolding normalized_def by blast
      then show False using normal_char(6) d by blast
    qed
    have cl: "d \<notin> set s" if "r \<in> set (gridTexts fs df)" "s \<in> set r" for r s
    proof -
      have "plainText s" using assms(5) that by (auto simp add: list_all_iff)
      then show ?thesis using d unfolding plainText_def list_all_iff by blast
    qed
    show "d \<notin> set ?text"
    proof
      assume "d \<in> set ?text"
      then have "d \<in> {CHR 0x0A, CHR '','', CHR 0x22}
                  \<union> (\<Union>fl \<in> set (headers df # gridTexts fs df). \<Union>x \<in> set fl. set x)"
        unfolding lines using set_lines by blast
      then show False using sep hd cl by auto
    qed
  qed
  have comma: "(case guess ?text of Some c \<Rightarrow> c | None \<Rightarrow> CHR '','') = CHR '',''"
    by (rule guess_comma[OF assms(1) plain])
  have "scanCSV CHR '','' FieldStart [] [] ?text = headers df # gridTexts fs df"
    unfolding lines using assms(3,5) by (intro scan_lines) auto
  then have "papaParse guess ?text = headers df # gridTexts fs df"
    using assms(4,5) comma by (simp add: papaParse_def filter_id_conv)
  moreover have "map normalizeHeader (headers df) = headers df"
    using assms(2) normalized_header(1) by (simp add: map_idI)
  ultimately show ?thesis by (simp add: processCSV_def)
qed

lemma quoted_eval:
  "\<forall>h \<in> set (headers quotedCellFile). normalized h"
  "headers quotedCellFile \<noteq> []" "\<not> emptyLine (headers quotedCellFile)"
  "\<forall>r \<in> set (gridTexts noRendering quotedCellFile). r \<noteq> [] \<and> \<not> emptyLine r \<and> list_all plainText r"
  "gridTexts noRendering quotedCellFile
     = [[''T1'', ''say '' @ [CHR 0x22] @ ''hi'' @ [CHR 0x22] @ '', then'' @ [CHR 0x0A] @ ''go''],
        [''7'', []]]"
  by code_simp+

text \<open>A cell that holds a comma, two double quotes and a line feed, a number and a
  \<open>null\<close> come back as their texts.\<close>

theorem csv_round_trip_witness:
  "soundGuess semicolonGuess
   \<and> list_all normalized (headers quotedCellFile)
   \<and> headers quotedCellFile \<noteq> [] \<and> \<not> emptyLine (headers quotedCellFile)
   \<and> list_all (\<lambda>r. r \<noteq> [] \<and> \<not> emptyLine r \<and> list_all plainText r)
        (gridTexts noRendering quotedCellFile)
   \<and> processCSV semicolonGuess (generateCleanedCSV noRendering quotedCellFile)
       = Some ([''id'', ''notes''],
               [[''T1'', ''say '' @ [CHR 0x22] @ ''hi'' @ [CHR 0x22] @ '', then'' @ [CHR 0x0A] @ ''go''],
                [''7'', []]])"
proof -
  have h: "headers quotedCellFile = [''id'', ''notes'']"
    by (simp add: quotedCellFile_def)
  have "processCSV semicolonGuess (generateCleanedCSV noRendering quotedCellFile)
          = Some (headers quotedCellFile, gridTexts noRendering quotedCellFile)"
    using csv_round_trip[OF sound_guesses(2) quoted_eval(1,2,3,4)] .
  then have r: "processCSV semicolonGuess (generateCleanedCSV noRendering quotedCellFile)
       = Some ([''id'', ''notes''],
               [[''T1'', ''say '' @ [CHR 0x22] @ ''hi'' @ [CHR 0x22] @ '', then'' @ [CHR 0x0A] @ ''go''],
                [''7'', []]])"
    unfolding quoted_eval(5) h .
  have a: "list_all normalized (headers quotedCellFile)"
      "list_all (\<lambda>r. r \<noteq> [] \<and> \<not> emptyLine r \<and> list_all plainText r)
        (gridTexts noRendering quotedCellFile)"
    using quoted_eval(1,4) unfolding list_all_iff by blast+
  from sound_guesses(2) a quoted_eval(2,3) r show ?thesis by (intro conjI)
qed

text \<open>C5 as stated fails: a row that holds one empty cell is written as an empty line,
  which the upload skips; the file comes back with two rows instead of three.\<close>

theorem blank_row_lost:
  "gridTexts noRendering blankCellFile = [[''A''], [[]], [''B'']]
   \<and> processCSV noGuess (generateCleanedCSV noRendering blankCellFile)
       = Some ([''id''], [[''A''], [''B'']])"
  by code_simp

text \<open>A cell that holds semicolons shows why the delimiters are excluded above: once
  the upload takes the semicolon for the delimiter, the one column comes back as
  three.\<close>

lemma semicolon_cell_split:
  "gridTexts noRendering semicolonCellFile = [[''a;b;c''], [''d;e;f'']]
   \<and> processCSV semicolonGuess (generateCleanedCSV noRendering semicolonCellFile)
       = Some ([''notes''], [[''a'', ''b'', ''c''], [''d'', ''e'', ''f'']])"
  by code_simp

subsection \<open>Rule conditions\<close>

lemma startsWith_iff: "startsWith s p \<longleftrightarrow> (\<exists>b. s = p @ b)"
  by (induction s p rule: startsWith.induct) auto

lemma str_includes_iff: "str_includes s p \<longleftrightarrow> (\<exists>a b. s = a @ p @ b)"
proof (induction s)
  case Nil
  then show ?case by simp
next
  case (Cons c cs)
  show ?case
  proof
    assume "str_includes (c # cs) p"
    then consider "startsWith (c # cs) p" | "str_includes cs p" by auto
    then show "\<exists>a b. c # cs = a @ p @ b"
    proof cases
      case 1
      then obtain b where "c # cs = p @ b" using startsWith_iff by blast
      then have "c # cs = [] @ p @ b" by simp
      then show ?thesis by blast
    next
      case 2
      then obtain a b where "cs = a @ p @ b" using Cons.IH by blast
      then have "c # cs = (c # a) @ p @ b" by simp
      then show ?thesis by blast
    qed
  next
    assume "\<exists>a b. c # cs = a @ p @ b"
    then obtain a b where e: "c # cs = a @ p @ b" by blast
    show "str_includes (c # cs) p"
    proof (cases a)
      case Nil
      with e have "startsWith (c # cs) p" using startsWith_iff by auto
      then show ?thesis by simp
    next
      case (Cons d ds)
      with e have "cs = ds @ p @ b" by simp
      then have "str_includes cs p" using Cons.IH by blast
      then show ?thesis by simp
    qed
  qed
qed

lemma splitOn_not_empty: "splitOn d s \<noteq> []"
  by (induction s) (auto split: list.splits)

lemma join_head: "join sep ((c # w) # ws) = c # join sep (w # ws)"
  by (cases ws) simp_all

lemma join_splitOn: "join [d] (splitOn d s) = s"
proof (induction s)
  case Nil
  then show ?case by simp
next
  case (Cons c cs)
  obtain w ws where e: "splitOn d cs = w # ws"
    using splitOn_not_empty[of d cs] by (cases "splitOn d cs") auto
  with Cons.IH have i: "join [d] (w # ws) = cs" by simp
  show ?case by (simp add: e i join_head)
qed

lemma splitOn_items: "item \<in> set (splitOn d s) \<Longrightarrow> d \<notin> set item"
proof (induction s arbitrary: item)
  case Nil
  then show ?case by simp
next
  case (Cons c cs)
  obtain w ws where e: "splitOn d cs = w # ws"
    using splitOn_not_empty[of d cs] by (cases "splitOn d cs") auto
  have "d \<notin> set u" if "u \<in> set (w # ws)" for u
    using that Cons.IH e by simp
  with Cons.prems e show ?case by (auto split: if_splits)
qed

text \<open>
  C7. The condition that the field "priority" equals "high" is true of the value "high"
  and false of the values "3" and "High". The operators follow the stated meaning.
  Equals and not-equals are string equality, which is case-sensitive. Greater-than and
  less-than compare the numbers that the two texts stand for and are false when either
  text stands for none. Contains holds exactly when the condition value occurs inside the
  field value, letter case aside. Regex is the verdict of the pattern compiled under the
  flag \<open>i\<close>, false when the pattern does not compile, and, with a compiler that honours
  the flag, the same for two field values that differ in letter case only. In holds
  exactly when the field value is, letter case aside, one of the items of the condition
  value, the items being the texts between its commas; not-in is its negation. Contains
  and in give the same verdict for two field values that differ in letter case only.
\<close>

theorem condition_semantics:
  "evaluateCondition toNumber regExp priorityIsHigh ''high''
   \<and> \<not> evaluateCondition toNumber regExp priorityIsHigh ''3''
   \<and> \<not> evaluateCondition toNumber regExp priorityIsHigh ''High''
   \<and> (evaluateCondition toNumber regExp (condition f Equals x) v \<longleftrightarrow> v = x)
   \<and> (evaluateCondition toNumber regExp (condition f NotEquals x) v \<longleftrightarrow> v \<noteq> x)
   \<and> (evaluateCondition toNumber regExp (condition f GreaterThan x) v \<longleftrightarrow>
        (\<exists>a b. toNumber v = Some a \<and> toNumber x = Some b \<and> a > b))
   \<and> (evaluateCondition toNumber regExp (condition f LessThan x) v \<longleftrightarrow>
        (\<exists>a b. toNumber v = Some a \<and> toNumber x = Some b \<and> a < b))
   \<and> (toNumber v = None \<or> toNumber x = None \<longrightarrow>
        \<not> evaluateCondition toNumber regExp (condition f GreaterThan x) v
        \<and> \<not> evaluateCondition toNumber regExp (condition f LessThan x) v)
   \<and> (evaluateCondition toNumber regExp (condition f Contains x) v \<longleftrightarrow>
        (\<exists>a b. toLowerCase v = a @ toLowerCase x @ b))
   \<and> (evaluateCondition toNumber regExp (condition f Regex x) v \<longleftrightarrow>
        (\<exists>matches. regExp x ''i'' = Some matches \<and> matches v))
   \<and> (regExp x ''i'' = None \<longrightarrow> \<not> evaluateCondition toNumber regExp (condition f Regex x) v)
   \<and> (honoursIgnoreCase regExp \<and> sameLetters v w \<longrightarrow>
        evaluateCondition toNumber regExp (condition f Regex x) v
          = evaluateCondition toNumber regExp (condition f Regex x) w)
   \<and> (evaluateCondition toNumber regExp (condition f In x) v \<longleftrightarrow>
        (\<exists>item \<in> set (splitOn CHR '','' x). sameLetters v item))
   \<and> join '','' (splitOn CHR '','' x) = x
   \<and> (\<forall>item \<in> set (splitOn CHR '','' x). CHR '','' \<notin> set item)
   \<and> (evaluateCondition toNumber regExp (condition f NotIn x) v \<longleftrightarrow>
        \<not> evaluateCondition toNumber regExp (condition f In x) v)
   \<and> (sameLetters v w \<longrightarrow>
        evaluateCondition toNumber regExp (condition f Contains x) v
          = evaluateCondition toNumber regExp (condition f Contains x) w
        \<and> evaluateCondition toNumber regExp (condition f In x) v
          = evaluateCondition toNumber regExp (condition f In x) w)"
proof -
  have e: "evaluateCondition toNumber regExp priorityIsHigh u \<longleftrightarrow> u = ''high''" for u
    by (simp add: evaluateCondition_def priorityIsHigh_def condition_def)
  have g: "evaluateCondition toNumber regExp (condition f GreaterThan x) v \<longleftrightarrow>
        (\<exists>a b. toNumber v = Some a \<and> toNumber x = Some b \<and> a > b)"
    by (auto simp add: evaluateCondition_def condition_def split: option.splits)
  have l: "evaluateCondition toNumber regExp (condition f LessThan x) v \<longleftrightarrow>
        (\<exists>a b. toNumber v = Some a \<and> toNumber x = Some b \<and> a < b)"
    by (auto simp add: evaluateCondition_def condition_def split: option.splits)
  have r: "evaluateCondition toNumber regExp (condition f Regex x) u \<longleftrightarrow>
        (\<exists>matches. regExp x ''i'' = Some matches \<and> matches u)" for u
    by (auto simp add: evaluateCondition_def condition_def split: option.splits)
  have o: "(evaluateCondition toNumber regExp (condition f Equals x) v \<longleftrightarrow> v = x)"
      "(evaluateCondition toNumber regExp (condition f NotEquals x) v \<longleftrightarrow> v \<noteq> x)"
      "(evaluateCondition toNumber regExp (condition f NotIn x) v \<longleftrightarrow>
        \<not> evaluateCondition toNumber regExp (condition f In x) v)"
    by (simp_all add: evaluateCondition_def condition_def)
  have k: "evaluateCondition toNumber regExp (condition f Contains x) u \<longleftrightarrow>
        (\<exists>a b. toLowerCase u = a @ toLowerCase x @ b)" for u
    by (simp add: evaluateCondition_def condition_def str_includes_iff)
  have m: "evaluateCondition toNumber regExp (condition f In x) u \<longleftrightarrow>
        (\<exists>item \<in> set (splitOn CHR '','' x). sameLetters u item)" for u
    by (auto simp add: evaluateCondition_def condition_def sameLetters_def)
  have h: "evaluateCondition toNumber regExp priorityIsHigh ''high''"
      "\<not> evaluateCondition toNumber regExp priorityIsHigh ''3''"
      "\<not> evaluateCondition toNumber regExp priorityIsHigh ''High''"
    by (simp_all add: e)
  have n: "toNumber v = None \<or> toNumber x = None \<longrightarrow>
        \<not> evaluateCondition toNumber regExp (condition f GreaterThan x) v
        \<and> \<not> evaluateCondition toNumber regExp (condition f LessThan x) v"
    unfolding g l by auto
  have c: "regExp x ''i'' = None \<longrightarrow> \<not> evaluateCondition toNumber regExp (condition f Regex x) v"
    unfolding r by auto
  have i: "honoursIgnoreCase regExp \<and> sameLetters v w \<longrightarrow>
        evaluateCondition toNumber regExp (condition f Regex x) v
          = evaluateCondition toNumber regExp (condition f Regex x) w"
    unfolding r honoursIgnoreCase_def ignoresCase_def by metis
  have j: "join '','' (splitOn CHR '','' x) = x"
    by (rule join_splitOn)
  have s: "\<forall>item \<in> set (splitOn CHR '','' x). CHR '','' \<notin> set item"
    using splitOn_items by blast
  have q: "sameLetters v w \<longrightarrow>
        evaluateCondition toNumber regExp (condition f Contains x) v
          = evaluateCondition toNumber regExp (condition f Contains x) w
        \<and> evaluateCondition toNumber regExp (condition f In x) v
          = evaluateCondition toNumber regExp (condition f In x) w"
    unfolding k m by (simp add: sameLetters_def)
  show ?thesis
    using h o(1,2) g l n k[of v] r[of v] c i m[of v] j s o(3) q by (intro conjI)
qed

text \<open>With decimal texts as numbers and literal patterns: "abc" is not greater than
  "5" while "10" is; the empty pattern matches nothing; the pattern "ann" matches "Ann"
  as it matches "ANN"; "B" is in the list "a,b,c" and "JavaScript, React" contains
  "javascript".\<close>

theorem condition_semantics_witness:
  "digitsToNumber ''abc'' = None
   \<and> \<not> evaluateCondition digitsToNumber literalPattern (condition ''duration'' GreaterThan ''5'') ''abc''
   \<and> \<not> evaluateCondition digitsToNumber literalPattern (condition ''duration'' LessThan ''5'') ''abc''
   \<and> evaluateCondition digitsToNumber literalPattern (condition ''duration'' GreaterThan ''5'') ''10''
   \<and> literalPattern [] ''i'' = None
   \<and> \<not> evaluateCondition digitsToNumber literalPattern (condition ''name'' Regex []) ''abc''
   \<and> honoursIgnoreCase literalPattern \<and> sameLetters ''Ann'' ''ANN''
   \<and> evaluateCondition digitsToNumber literalPattern (condition ''name'' Regex ''ann'') ''Ann''
   \<and> evaluateCondition digitsToNumber literalPattern (condition ''name'' Regex ''ann'') ''ANN''
   \<and> splitOn CHR '','' ''a,b,c'' = [''a'', ''b'', ''c''] \<and> sameLetters ''B'' ''b''
   \<and> evaluateCondition digitsToNumber literalPattern (condition ''grade'' In ''a,b,c'') ''B''
   \<and> \<not> evaluateCondition digitsToNumber literalPattern (condition ''grade'' NotIn ''a,b,c'') ''B''
   \<and> evaluateCondition digitsToNumber literalPattern (condition ''grade'' In ''a,b,c'') ''b''
   \<and> evaluateCondition digitsToNumber literalPattern
        (condition ''required_skills'' Contains ''javascript'') ''JavaScript, React''"
proof -
  note t = condition_semantics[where toNumber=digitsToNumber and regExp=literalPattern]
  have a: "digitsToNumber ''abc'' = None" "literalPattern [] ''i'' = None"
      "digitsToNumber ''10'' = Some 10" "digitsToNumber ''5'' = Some 5"
    by code_simp+
  have b: "splitOn CHR '','' ''a,b,c'' = [''a'', ''b'', ''c'']" "sameLetters ''B'' ''b''"
      "sameLetters ''Ann'' ''ANN''"
      "toLowerCase ''JavaScript, React'' = ''javascript, react''"
      "toLowerCase ''javascript'' = ''javascript''"
    by code_simp+
  have h: "honoursIgnoreCase literalPattern"
    unfolding honoursIgnoreCase_def ignoresCase_def literalPattern_def sameLetters_def
    by (auto split: if_splits)
  have p: "literalPattern ''ann'' ''i''
             = Some (\<lambda>v. str_includes (toLowerCase v) (toLowerCase ''ann''))"
    by (simp add: literalPattern_def)
  have y: "str_includes (toLowerCase ''Ann'') (toLowerCase ''ann'')"
    by code_simp
  have "digitsToNumber ''abc'' = None \<or> digitsToNumber ''5'' = None \<longrightarrow>
        \<not> evaluateCondition digitsToNumber literalPattern (condition ''duration'' GreaterThan ''5'') ''abc''
        \<and> \<not> evaluateCondition digitsToNumber literalPattern (condition ''duration'' LessThan ''5'') ''abc''"
    using t[where w="[]" and v="''abc''" and x="''5''" and f="''duration''"] by (elim conjE)
  with a(1) have 1:
      "\<not> evaluateCondition digitsToNumber literalPattern (condition ''duration'' GreaterThan ''5'') ''abc''"
      "\<not> evaluateCondition digitsToNumber literalPattern (condition ''duration'' LessThan ''5'') ''abc''"
    by simp_all
  have "evaluateCondition digitsToNumber literalPattern (condition ''duration'' GreaterThan ''5'') ''10''
        \<longleftrightarrow> (\<exists>a b. digitsToNumber ''10'' = Some a \<and> digitsToNumber ''5'' = Some b \<and> a > b)"
    using t[where w="[]" and v="''10''" and x="''5''" and f="''duration''"] by (elim conjE)
  then have 2:
      "evaluateCondition digitsToNumber literalPattern (condition ''duration'' GreaterThan ''5'') ''10''"
    by (simp add: a(3,4))
  have "literalPattern [] ''i'' = None \<longrightarrow>
        \<not> evaluateCondition digitsToNumber literalPattern (condition ''name'' Regex []) ''abc''"
    using t[where w="[]" and v="''abc''" and x="[]" and f="''name''"] by (elim conjE)
  with a(2) have 3:
      "\<not> evaluateCondition digitsToNumber literalPattern (condition ''name'' Regex []) ''abc''"
    by simp
  have "evaluateCondition digitsToNumber literalPattern (condition ''name'' Regex ''ann'') ''Ann''
        \<longleftrightarrow> (\<exists>matches. literalPattern ''ann'' ''i'' = Some matches \<and> matches ''Ann'')"
    using t[where w="[]" and v="''Ann''" and x="''ann''" and f="''name''"] by (elim conjE)
  then have 4:
      "evaluateCondition digitsToNumber literalPattern (condition ''name'' Regex ''ann'') ''Ann''"
    unfolding p using y by simp
  have "honoursIgnoreCase literalPattern \<and> sameLetters ''Ann'' ''ANN'' \<longrightarrow>
        evaluateCondition digitsToNumber literalPattern (condition ''name'' Regex ''ann'') ''Ann''
          = evaluateCondition digitsToNumber literalPattern (condition ''name'' Regex ''ann'') ''ANN''"
    using t[where v="''Ann''" and w="''ANN''" and x="''ann''" and f="''name''"] by (elim conjE)
  with h b(3) 4 have 5:
      "evaluateCondition digitsToNumber literalPattern (condition ''name'' Regex ''ann'') ''ANN''"
    by simp
  have "evaluateCondition digitsToNumber literalPattern (condition ''grade'' In ''a,b,c'') ''B''
        \<longleftrightarrow> (\<exists>item \<in> set (splitOn CHR '','' ''a,b,c''). sameLetters ''B'' item)"
    using t[where w="[]" and v="''B''" and x="''a,b,c''" and f="''grade''"] by (elim conjE)
  then have 6:
      "evaluateCondition digitsToNumber literalPattern (condition ''grade'' In ''a,b,c'') ''B''"
    unfolding b(1) using b(2) by simp
  have "evaluateCondition digitsToNumber literalPattern (condition ''grade'' NotIn ''a,b,c'') ''B''
        \<longleftrightarrow> \<not> evaluateCondition digitsToNumber literalPattern (condition ''grade'' In ''a,b,c'') ''B''"
    using t[where w="[]" and v="''B''" and x="''a,b,c''" and f="''grade''"] by (elim conjE)
  with 6 have 7:
      "\<not> evaluateCondition digitsToNumber literalPattern (condition ''grade'' NotIn ''a,b,c'') ''B''"
    by simp
  have "sameLetters ''B'' ''b'' \<longrightarrow>
        evaluateCondition digitsToNumber literalPattern (condition ''grade'' Contains ''a,b,c'') ''B''
          = evaluateCondition digitsToNumber literalPattern (condition ''grade'' Contains ''a,b,c'') ''b''
        \<and> evaluateCondition digitsToNumber literalPattern (condition ''grade'' In ''a,b,c'') ''B''
          = evaluateCondition digitsToNumber literalPattern (condition ''grade'' In ''a,b,c'') ''b''"
    using t[where v="''B''" and w="''b''" and x="''a,b,c''" and f="''grade''"] by (elim conjE)
  with b(2) 6 have 8:
      "evaluateCondition digitsToNumber literalPattern (condition ''grade'' In ''a,b,c'') ''b''"
    by simp
  have c: "''javascript, react'' = [] @ ''javascript'' @ '', react''" by simp
  have "evaluateCondition digitsToNumber literalPattern
          (condition ''required_skills'' Contains ''javascript'') ''JavaScript, React''
        \<longleftrightarrow> (\<exists>a b. toLowerCase ''JavaScript, React'' = a @ toLowerCase ''javascript'' @ b)"
    using t[where w="[]" and v="''JavaScript, React''" and x="''javascript''" and f="''required_skills''"]
    by (elim conjE)
  then have 9: "evaluateCondition digitsToNumber literalPattern
        (condition ''required_skills'' Contains ''javascript'') ''JavaScript, React''"
    unfolding b(4,5) using c by blast
  from a(1,2) 1 2 3 h b(3) 4 5 b(1,2) 6 7 8 9 show ?thesis by (intro conjI)
qed

subsection \<open>Rounding to a double\<close>

lemma unitRoundoff_bounds: "0 < unitRoundoff" "unitRoundoff \<le> 1" "0 \<le> unitRoundoff"
  by (simp_all add: unitRoundoff_def)

lemma floorLog2_le:
  assumes "0 < a"
  shows "2 powi floorLog2 a \<le> a"
proof -
  obtain p q where pq: "quotient_of a = (p, q)" by (cases "quotient_of a")
  then have q: "0 < q" and a: "a = of_int p / of_int q"
    using quotient_of_denom_pos quotient_of_div by auto
  then have p: "0 < p" using assms by (simp add: zero_less_divide_iff)
  show ?thesis
  proof (cases "2 powi (bitlen p - bitlen q) \<le> a")
    case True
    then show ?thesis by (simp add: floorLog2_def pq)
  next
    case False
    have bp: "2 ^ nat (bitlen p - 1) \<le> p" using bitlen_bounds[OF p] by simp
    have bq: "q < 2 ^ nat (bitlen q)" using bitlen_bounds[OF q] by simp
    have p1: "1 \<le> bitlen p" using p by (simp add: bitlen_alt_def)
    have q0: "0 \<le> bitlen q" by (rule bitlen_nonneg)
    have e: "bitlen p - bitlen q - 1 = (bitlen p - 1) - bitlen q" by simp
    have "(2::rat) powi (bitlen p - bitlen q - 1) = 2 powi (bitlen p - 1) / 2 powi (bitlen q)"
      unfolding e by (rule power_int_diff) simp
    also have "\<dots> = 2 ^ nat (bitlen p - 1) / 2 ^ nat (bitlen q)"
      using p1 q0 by (simp add: power_int_def)
    also have "\<dots> \<le> of_int p / of_int q"
    proof -
      have "(of_int (2 ^ nat (bitlen p - 1)) :: rat) \<le> of_int p"
        using bp by (simp only: of_int_le_iff)
      then have A: "(2::rat) ^ nat (bitlen p - 1) \<le> of_int p" by simp
      have "(of_int q :: rat) \<le> of_int (2 ^ nat (bitlen q))"
        using bq by (simp only: of_int_le_iff)
      then have B: "(of_int q :: rat) \<le> 2 ^ nat (bitlen q)" by simp
      have C: "(0::rat) < of_int q" using q by simp
      have D: "(0::rat) \<le> of_int p" using p by simp
      show ?thesis by (rule frac_le[OF D A C B])
    qed
    finally have "(2::rat) powi (bitlen p - bitlen q - 1) \<le> a" unfolding a .
    moreover have "floorLog2 a = bitlen p - bitlen q - 1"
      using False by (simp add: floorLog2_def pq)
    ultimately show ?thesis by simp
  qed
qed

text \<open>\<open>floorLog2\<close> is the exponent of the power of two at or below its argument.\<close>

lemma floorLog2_less:
  assumes "0 < a"
  shows "a < 2 powi (floorLog2 a + 1)"
proof -
  obtain p q where pq: "quotient_of a = (p, q)" by (cases "quotient_of a")
  then have q: "0 < q" and a: "a = of_int p / of_int q"
    using quotient_of_denom_pos quotient_of_div by auto
  then have p: "0 < p" using assms by (simp add: zero_less_divide_iff)
  show ?thesis
  proof (cases "2 powi (bitlen p - bitlen q) \<le> a")
    case True
    have bp: "p < 2 ^ nat (bitlen p)" using bitlen_bounds[OF p] by simp
    have bq: "2 ^ nat (bitlen q - 1) \<le> q" using bitlen_bounds[OF q] by simp
    have p0: "0 \<le> bitlen p" by (rule bitlen_nonneg)
    have q1: "1 \<le> bitlen q" using q by (simp add: bitlen_alt_def)
    have "of_int p / of_int q < (2::rat) ^ nat (bitlen p) / 2 ^ nat (bitlen q - 1)"
    proof -
      have "(of_int p :: rat) < of_int (2 ^ nat (bitlen p))"
        using bp by (simp only: of_int_less_iff)
      then have A: "(of_int p :: rat) < 2 ^ nat (bitlen p)" by simp
      have "(of_int (2 ^ nat (bitlen q - 1)) :: rat) \<le> of_int q"
        using bq by (simp only: of_int_le_iff)
      then have B: "(2::rat) ^ nat (bitlen q - 1) \<le> of_int q" by simp
      have C: "(0::rat) < 2 ^ nat (bitlen q - 1)" by simp
      have D: "(0::rat) \<le> of_int p" using p by simp
      show ?thesis by (rule frac_less[OF D A C B])
    qed
    also have "\<dots> = 2 powi (bitlen p) / 2 powi (bitlen q - 1)"
      using p0 q1 by (simp add: power_int_def)
    also have "\<dots> = 2 powi (bitlen p - (bitlen q - 1))"
      by (rule power_int_diff[symmetric]) simp
    finally have "a < 2 powi (bitlen p - bitlen q + 1)"
      unfolding a by (simp add: algebra_simps)
    moreover have "floorLog2 a = bitlen p - bitlen q"
      using True by (simp add: floorLog2_def pq)
    ultimately show ?thesis by simp
  next
    case False
    then have "floorLog2 a = bitlen p - bitlen q - 1"
      by (simp add: floorLog2_def pq)
    then show ?thesis using False by simp
  qed
qed

lemma roundHalfEven_err: "\<bar>of_int (roundHalfEven x) - x\<bar> \<le> 1 / 2"
proof -
  have "of_int \<lfloor>x\<rfloor> \<le> x" "x < of_int \<lfloor>x\<rfloor> + 1" by linarith+
  then show ?thesis
    by (auto simp add: roundHalfEven_def Let_def)
qed

lemma roundHalfEven_int: "roundHalfEven (of_int k) = k"
  by (simp add: roundHalfEven_def)

lemma roundHalfEven_nonneg: "0 \<le> x \<Longrightarrow> 0 \<le> roundHalfEven x"
  by (auto simp add: roundHalfEven_def Let_def)


lemma onGrid_zero: "onGrid 0"
  unfolding onGrid_def by (rule exI[of _ 0]) simp

lemma onGrid_add: "onGrid a \<Longrightarrow> onGrid b \<Longrightarrow> onGrid (a + b)"
  unfolding onGrid_def
proof (elim exE)
  fix k l :: int
  assume "a = of_int k * 2 powi (- 1074)" "b = of_int l * 2 powi (- 1074)"
  then have "a + b = of_int (k + l) * 2 powi (- 1074)" by (simp add: algebra_simps)
  then show "\<exists>m::int. a + b = of_int m * 2 powi (- 1074)" by blast
qed

lemma round_nonneg:
  assumes "0 \<le> a" "a \<le> 1024"
  shows "\<exists>y. roundDouble a = Fin y \<and> 0 \<le> y \<and> onGrid y
           \<and> \<bar>y - a\<bar> \<le> a * unitRoundoff + halfSubnormal
           \<and> (onGrid a \<longrightarrow> \<bar>y - a\<bar> \<le> a * unitRoundoff)"
proof (cases "a = 0")
  case True
  then show ?thesis by (simp add: roundDouble_def onGrid_zero halfSubnormal_def)
next
  case False
  then have apos: "0 < a" using assms by simp
  define e where "e = max (floorLog2 a) (- 1022)"
  define q :: rat where "q = 2 powi (e - 52)"
  define m where "m = roundHalfEven (a / q)"
  define y where "y = of_int m * q"
  have qpos: "0 < q" by (simp add: q_def)
  have e_ge: "- 1022 \<le> e" by (simp add: e_def)
  have "\<bar>y - a\<bar> = \<bar>of_int m - a / q\<bar> * q"
  proof -
    have "y - a = (of_int m - a / q) * q" using qpos by (simp add: y_def field_simps)
    then show ?thesis using qpos by (simp add: abs_mult)
  qed
  also have "\<dots> \<le> (1 / 2) * q"
    using roundHalfEven_err[of "a / q"] qpos unfolding m_def by (intro mult_right_mono) auto
  finally have err: "\<bar>y - a\<bar> \<le> q / 2" by simp
  have q_split: "q = 2 powi e / 2 ^ 52"
    unfolding q_def by (subst power_int_diff) simp_all
  have half: "q / 2 \<le> a / 2 ^ 53 + 1 / 2 ^ 1075 \<and> (onGrid a \<longrightarrow> \<bar>y - a\<bar> \<le> a / 2 ^ 53)"
  proof (cases "- 1022 \<le> floorLog2 a")
    case True
    then have "e = floorLog2 a" by (simp add: e_def)
    then have "2 powi e \<le> a" using floorLog2_le[OF apos] by simp
    then have "q / 2 \<le> a / 2 ^ 53" unfolding q_split by (simp add: field_simps)
    then show ?thesis using err by auto
  next
    case False
    then have e: "e = - 1022" by (simp add: e_def)
    have q: "q = 2 powi (- 1074)" unfolding q_def e by simp
    have "q / 2 = 1 / 2 ^ 1075" unfolding q by (simp add: power_int_minus field_simps)
    moreover have "\<bar>y - a\<bar> \<le> a / 2 ^ 53" if "onGrid a"
    proof -
      from that obtain k :: int where "a = of_int k * 2 powi (- 1074)"
        unfolding onGrid_def by blast
      then have "a / q = of_int k" using qpos unfolding q by simp
      then have "m = k" unfolding m_def by (simp add: roundHalfEven_int)
      then have "y = a" unfolding y_def using \<open>a / q = of_int k\<close> qpos by (simp add: field_simps)
      then show ?thesis using assms(1) by simp
    qed
    ultimately show ?thesis using assms(1) by auto
  qed
  have m0: "0 \<le> m" unfolding m_def using apos qpos by (intro roundHalfEven_nonneg) simp
  then have y0: "0 \<le> y" unfolding y_def using qpos by simp
  have "q / 2 \<le> a / 2 ^ 53 + 1 / 2 ^ 1075" using half by blast
  also have "\<dots> \<le> 1024 / 2 ^ 53 + 1 / 2 ^ 1075" using assms(2) by (simp add: divide_right_mono)
  also have "\<dots> \<le> 1" by simp
  finally have "q / 2 \<le> 1" .
  then have "y \<le> 1025" using err assms(2) by linarith
  moreover have "(1025::rat) < of_int (2 ^ 1024)" by simp
  ultimately have small: "\<not> of_int (2 ^ 1024) \<le> y" by linarith
  have grid: "onGrid y"
  proof -
    have "e - 52 = (e + 1022) + (- 1074)" by simp
    then have "q = 2 powi ((e + 1022) + (- 1074))"
      unfolding q_def by (rule arg_cong)
    also have "\<dots> = 2 powi (e + 1022) * 2 powi (- 1074)"
      by (rule power_int_add) simp
    also have "(2::rat) powi (e + 1022) = of_int (2 ^ nat (e + 1022))"
      using e_ge by (simp add: power_int_def)
    finally have "y = of_int (m * 2 ^ nat (e + 1022)) * 2 powi (- 1074)"
      unfolding y_def by simp
    then show ?thesis unfolding onGrid_def by blast
  qed
  have "roundDouble a = Fin y"
    using apos small
    by (simp add: roundDouble_def Let_def e_def[symmetric] q_def[symmetric] m_def[symmetric]
        y_def[symmetric])
  then show ?thesis using y0 grid err half by (auto simp add: unitRoundoff_def halfSubnormal_def)
qed


lemma add_step:
  assumes "0 \<le> b" "onGrid b" "0 \<le> a" "onGrid a" "b + a \<le> 1024"
  shows "\<exists>c. num_add (Fin b) (Fin a) = Fin c \<and> 0 \<le> c \<and> onGrid c
           \<and> (1 - unitRoundoff) * (b + a) \<le> c \<and> c \<le> (1 + unitRoundoff) * (b + a)"
proof -
  have g: "onGrid (b + a)" using assms(2,4) by (rule onGrid_add)
  have "0 \<le> b + a" using assms(1,3) by simp
  from round_nonneg[OF this assms(5)] g obtain c where
    c: "roundDouble (b + a) = Fin c" "0 \<le> c" "onGrid c" "\<bar>c - (b + a)\<bar> \<le> (b + a) * unitRoundoff"
    by blast
  have "(1 - unitRoundoff) * (b + a) \<le> c \<and> c \<le> (1 + unitRoundoff) * (b + a)"
    using c(4) by (simp add: algebra_simps abs_le_iff)
  then show ?thesis using c by auto
qed

lemma fold_chain:
  assumes "list_all (\<lambda>a. 0 \<le> a \<and> a \<le> 4 \<and> onGrid a) as" "0 \<le> b" "onGrid b"
    and "(b + 4 * of_nat (length as)) * 2 ^ length as \<le> 1024"
  shows "\<exists>T. foldl num_add (Fin b) (map Fin as) = Fin T \<and> 0 \<le> T \<and> onGrid T
           \<and> (1 - unitRoundoff) ^ length as * (b + sum_list as) \<le> T
           \<and> T \<le> (1 + unitRoundoff) ^ length as * (b + sum_list as)"
  using assms
proof (induction as arbitrary: b)
  case Nil
  then show ?case by simp
next
  case (Cons a as)
  let ?L = "1 - unitRoundoff" and ?U = "1 + unitRoundoff"
  note u = unitRoundoff_bounds
  have a: "0 \<le> a" "a \<le> 4" "onGrid a" and rest: "list_all (\<lambda>a. 0 \<le> a \<and> a \<le> 4 \<and> onGrid a) as"
    using Cons.prems(1) by auto
  have s0: "0 \<le> sum_list as"
    using rest by (intro sum_list_nonneg) (auto simp add: list_all_iff)
  have p2: "(1::rat) \<le> 2 * 2 ^ length as"
    using one_le_power[of "2::rat" "Suc (length as)"] by simp
  have bound: "(b + 4 * (1 + of_nat (length as))) * (2 * 2 ^ length as) \<le> 1024"
    using Cons.prems(4) by simp
  have n0: "0 \<le> b + 4 * (1 + of_nat (length as))" using Cons.prems(2) by simp
  have "b + 4 \<le> (b + 4 * (1 + of_nat (length as))) * 1" by simp
  also have "\<dots> \<le> (b + 4 * (1 + of_nat (length as))) * (2 * 2 ^ length as)"
    using n0 p2 by (rule mult_left_mono[OF _ _, rotated])
  finally have ba: "b + a \<le> 1024" using bound a(2) by linarith
  from add_step[OF Cons.prems(2,3) a(1,3) ba] obtain c where
    c: "num_add (Fin b) (Fin a) = Fin c" "0 \<le> c" "onGrid c" "?L * (b + a) \<le> c" "c \<le> ?U * (b + a)"
    by blast
  have ba0: "0 \<le> b + a" using Cons.prems(2) a(1) by simp
  have "unitRoundoff * (b + a) \<le> 1 * (b + a)" using u(2) ba0 by (rule mult_right_mono)
  then have "c \<le> 2 * (b + a)" using c(5) by (simp add: algebra_simps)
  then have "c + 4 * of_nat (length as) \<le> 2 * (b + 4 * (1 + of_nat (length as)))"
    using a(2) by simp
  then have "(c + 4 * of_nat (length as)) * 2 ^ length as
             \<le> (2 * (b + 4 * (1 + of_nat (length as)))) * 2 ^ length as"
    by (rule mult_right_mono) simp
  also have "\<dots> = (b + 4 * (1 + of_nat (length as))) * (2 * 2 ^ length as)" by simp
  finally have inv: "(c + 4 * of_nat (length as)) * 2 ^ length as \<le> 1024" using bound by linarith
  from Cons.IH[OF rest c(2,3) inv] obtain T where
    T: "foldl num_add (Fin c) (map Fin as) = Fin T" "0 \<le> T" "onGrid T"
       "?L ^ length as * (c + sum_list as) \<le> T" "T \<le> ?U ^ length as * (c + sum_list as)"
    by blast
  have L: "0 \<le> ?L" and U: "0 \<le> ?U" using u by simp_all
  have us: "0 \<le> unitRoundoff * sum_list as" using u(3) s0 by (rule mult_nonneg_nonneg)
  have up: "T \<le> ?U ^ length (a # as) * (b + sum_list (a # as))"
  proof -
    have "c + sum_list as \<le> ?U * (b + sum_list (a # as))"
      using c(5) us by (simp add: algebra_simps)
    then have "?U ^ length as * (c + sum_list as) \<le> ?U ^ length as * (?U * (b + sum_list (a # as)))"
      using U by (intro mult_left_mono) auto
    then show ?thesis using T(5) by (simp add: mult.assoc mult.left_commute)
  qed
  have low: "?L ^ length (a # as) * (b + sum_list (a # as)) \<le> T"
  proof -
    have "?L * (b + sum_list (a # as)) \<le> c + sum_list as"
      using c(4) us by (simp add: algebra_simps)
    then have "?L ^ length as * (?L * (b + sum_list (a # as))) \<le> ?L ^ length as * (c + sum_list as)"
      using L by (intro mult_left_mono) auto
    then show ?thesis using T(4) by (simp add: mult.assoc mult.left_commute)
  qed
  show ?case using c(1) T(1,2,3) up low by auto
qed

lemma div_step:
  assumes "0 \<le> a" "0 < T" "a / T \<le> 2"
  shows "\<exists>q. num_div (Fin a) (Fin T) = Fin q \<and> 0 \<le> q \<and> onGrid q
           \<and> \<bar>q - a / T\<bar> \<le> (a / T) * unitRoundoff + halfSubnormal"
proof -
  have "0 \<le> a / T" using assms(1,2) by simp
  moreover have "a / T \<le> 1024" using assms(3) by simp
  ultimately obtain q where "roundDouble (a / T) = Fin q" "0 \<le> q" "onGrid q"
      "\<bar>q - a / T\<bar> \<le> (a / T) * unitRoundoff + halfSubnormal"
    using round_nonneg[of "a / T"] by blast
  then show ?thesis using assms(2) by auto
qed

lemma rounding_consts:
  "(1 + unitRoundoff) / (1 - unitRoundoff) ^ 5 + 5 * halfSubnormal \<le> 1 + 1 / 2 ^ 49"
  "1 - 1 / 2 ^ 49 \<le> (1 - unitRoundoff) / (1 + unitRoundoff) ^ 5 - 5 * halfSubnormal"
  "1 / (1 - unitRoundoff) ^ 5 \<le> 2"
  "0 < (1 - unitRoundoff) ^ 5" "0 < (1 + unitRoundoff) ^ 5"
  by (simp_all add: unitRoundoff_def halfSubnormal_def power_divide)


subsection \<open>Priority weights\<close>

lemma unitWeight_grid:
  assumes "list_all unitWeight ws"
  shows "\<exists>as. ws = map Fin as \<and> list_all (\<lambda>a. 0 \<le> a \<and> a \<le> 1 \<and> onGrid a) as"
  using assms
proof (induction ws)
  case Nil
  then show ?case by simp
next
  case (Cons w ws)
  then obtain as where as: "ws = map Fin as" "list_all (\<lambda>a. 0 \<le> a \<and> a \<le> 1 \<and> onGrid a) as"
    by auto
  from Cons.prems obtain a where a: "w = Fin a" "0 \<le> a" "a \<le> 1" "roundDouble a = Fin a"
    by (cases w) (auto simp add: unitWeight_def)
  have "onGrid a" using round_nonneg[of a] a by auto
  then have "w # ws = map Fin (a # as) \<and> list_all (\<lambda>a. 0 \<le> a \<and> a \<le> 1 \<and> onGrid a) (a # as)"
    using a as by simp
  then show ?case by (rule exI)
qed

lemma div_all:
  assumes "0 < T" "list_all (\<lambda>a. 0 \<le> a \<and> a / T \<le> 2) as"
  shows "\<exists>qs. map (\<lambda>w. num_div w (Fin T)) (map Fin as) = map Fin qs \<and> length qs = length as
           \<and> list_all (\<lambda>q. 0 \<le> q \<and> q \<le> 4 \<and> onGrid q) qs
           \<and> \<bar>sum_list qs - sum_list as / T\<bar>
                \<le> (sum_list as / T) * unitRoundoff + of_nat (length as) * halfSubnormal"
  using assms(2)
proof (induction as)
  case Nil
  then show ?case by simp
next
  case (Cons a as)
  then obtain qs where qs: "map (\<lambda>w. num_div w (Fin T)) (map Fin as) = map Fin qs"
      "length qs = length as" "list_all (\<lambda>q. 0 \<le> q \<and> q \<le> 4 \<and> onGrid q) qs"
      "\<bar>sum_list qs - sum_list as / T\<bar>
         \<le> (sum_list as / T) * unitRoundoff + of_nat (length as) * halfSubnormal"
    by auto
  have a: "0 \<le> a" "a / T \<le> 2" using Cons.prems by auto
  from div_step[OF a(1) assms(1) a(2)] obtain q where
    q: "num_div (Fin a) (Fin T) = Fin q" "0 \<le> q" "onGrid q"
       "\<bar>q - a / T\<bar> \<le> (a / T) * unitRoundoff + halfSubnormal"
    by blast
  have "unitRoundoff \<le> 1 / 2" by (simp add: unitRoundoff_def)
  then have "(a / T) * unitRoundoff \<le> 2 * (1 / 2)"
    using a unitRoundoff_bounds assms(1) by (intro mult_mono) auto
  moreover have "halfSubnormal \<le> 1" by (simp add: halfSubnormal_def)
  ultimately have q4: "q \<le> 4" using q(4) a(2) by (simp add: abs_le_iff)
  have "\<bar>sum_list (q # qs) - sum_list (a # as) / T\<bar>
          = \<bar>(q - a / T) + (sum_list qs - sum_list as / T)\<bar>"
    by (simp add: add_divide_distrib)
  also have "\<dots> \<le> \<bar>q - a / T\<bar> + \<bar>sum_list qs - sum_list as / T\<bar>"
    by (rule abs_triangle_ineq)
  also have "\<dots> \<le> ((a / T) * unitRoundoff + halfSubnormal)
                  + ((sum_list as / T) * unitRoundoff + of_nat (length as) * halfSubnormal)"
    using q(4) qs(4) by (rule add_mono)
  also have "\<dots> = (sum_list (a # as) / T) * unitRoundoff + of_nat (length (a # as)) * halfSubnormal"
    by (simp add: add_divide_distrib algebra_simps)
  finally have "\<bar>sum_list (q # qs) - sum_list (a # as) / T\<bar>
      \<le> (sum_list (a # as) / T) * unitRoundoff + of_nat (length (a # as)) * halfSubnormal" .
  moreover have "map (\<lambda>w. num_div w (Fin T)) (map Fin (a # as)) = map Fin (q # qs)"
    using q(1) qs(1) by simp
  moreover have "length (q # qs) = length (a # as)" using qs(2) by simp
  moreover have "list_all (\<lambda>q. 0 \<le> q \<and> q \<le> 4 \<and> onGrid q) (q # qs)"
    using q(2,3) q4 qs(3) by simp
  ultimately show ?case by blast
qed


lemma tot_consts:
  "(1 + unitRoundoff) ^ 5 * (1 + 1 / 2 ^ 49) < 1 + 1 / 100"
  "1 - 1 / 100 < (1 - unitRoundoff) ^ 5 * (1 - 1 / 2 ^ 49)"
  by (simp_all add: unitRoundoff_def power_divide)

lemma normalise_sum:
  assumes "list_all (\<lambda>a. 0 \<le> a \<and> a \<le> 1 \<and> onGrid a) as" "length as = 5"
    and "foldl num_add (Fin 0) (map Fin as) = tot" "gt_zero tot"
  shows "\<exists>qs. map (\<lambda>w. num_div w tot) (map Fin as) = map Fin qs \<and> length qs = 5
           \<and> \<bar>sum_list qs - 1\<bar> \<le> 1 / 2 ^ 49
           \<and> (\<exists>t. foldl num_add (Fin 0) (map Fin qs) = Fin t \<and> \<bar>t - 1\<bar> < 1 / 100)"
proof -
  let ?L = "1 - unitRoundoff" and ?U = "1 + unitRoundoff"
  let ?A = "sum_list as"
  note u = unitRoundoff_bounds
  have as4: "list_all (\<lambda>a. 0 \<le> a \<and> a \<le> 4 \<and> onGrid a) as"
    using assms(1) by (auto simp add: list_all_iff)
  have "\<exists>T. foldl num_add (Fin 0) (map Fin as) = Fin T \<and> 0 \<le> T \<and> onGrid T
           \<and> ?L ^ length as * (0 + ?A) \<le> T \<and> T \<le> ?U ^ length as * (0 + ?A)"
    by (rule fold_chain[OF as4 _ onGrid_zero]) (simp_all add: assms(2))
  then obtain T where T: "tot = Fin T" "?L ^ 5 * ?A \<le> T" "T \<le> ?U ^ 5 * ?A"
    using assms(2,3) by auto
  have Tpos: "0 < T" using assms(4) T(1) by (simp add: gt_zero_def)
  have L5: "0 < ?L ^ 5" and U5: "0 < ?U ^ 5" using rounding_consts(4,5) by simp_all
  have Apos: "0 < ?A"
  proof (rule ccontr)
    assume "\<not> 0 < ?A"
    then have "?U ^ 5 * ?A \<le> 0" using U5 by (simp add: mult_le_0_iff)
    then show False using T(3) Tpos by linarith
  qed
  define rho where "rho = ?A / T"
  have rho_up: "rho \<le> 1 / ?L ^ 5"
  proof -
    have "?A \<le> T / ?L ^ 5" using T(2) L5 by (simp add: field_simps)
    then have "?A / T \<le> (T / ?L ^ 5) / T" using Tpos by (intro divide_right_mono) auto
    then show ?thesis using Tpos by (simp add: rho_def)
  qed
  have rho_low: "1 / ?U ^ 5 \<le> rho"
  proof -
    have "T / ?U ^ 5 \<le> ?A" using T(3) U5 by (simp add: field_simps)
    then have "(T / ?U ^ 5) / T \<le> ?A / T" using Tpos by (intro divide_right_mono) auto
    then show ?thesis using Tpos by (simp add: rho_def)
  qed
  have rho0: "0 \<le> rho" using Apos Tpos by (simp add: rho_def)
  have each: "list_all (\<lambda>a. 0 \<le> a \<and> a / T \<le> 2) as"
    unfolding list_all_iff
  proof (intro ballI conjI)
    fix a assume a: "a \<in> set as"
    then show "0 \<le> a" using assms(1) by (auto simp add: list_all_iff)
    have "a \<le> ?A" using a assms(1) by (intro member_le_sum_list) (auto simp add: list_all_iff)
    then have "a / T \<le> rho" unfolding rho_def using Tpos by (intro divide_right_mono) auto
    then show "a / T \<le> 2" using rho_up rounding_consts(3) by linarith
  qed
  from div_all[OF Tpos each] obtain qs where
    qs: "map (\<lambda>w. num_div w (Fin T)) (map Fin as) = map Fin qs" "length qs = length as"
        "list_all (\<lambda>q. 0 \<le> q \<and> q \<le> 4 \<and> onGrid q) qs"
        "\<bar>sum_list qs - rho\<bar> \<le> rho * unitRoundoff + of_nat (length as) * halfSubnormal"
    unfolding rho_def by blast
  let ?S = "sum_list qs"
  have err: "\<bar>?S - rho\<bar> \<le> rho * unitRoundoff + 5 * halfSubnormal"
    using qs(4) assms(2) by simp
  have "?S \<le> rho * ?U + 5 * halfSubnormal" using err by (simp add: abs_le_iff algebra_simps)
  also have "rho * ?U \<le> (1 / ?L ^ 5) * ?U" using rho_up u by (intro mult_right_mono) auto
  finally have "?S \<le> ?U / ?L ^ 5 + 5 * halfSubnormal" by simp
  then have S_up: "?S \<le> 1 + 1 / 2 ^ 49" using rounding_consts(1) by linarith
  have "(1 / ?U ^ 5) * ?L \<le> rho * ?L" using rho_low u by (intro mult_right_mono) auto
  moreover have "rho * ?L - 5 * halfSubnormal \<le> ?S" using err by (simp add: abs_le_iff algebra_simps)
  ultimately have "?L / ?U ^ 5 - 5 * halfSubnormal \<le> ?S" by simp
  then have S_low: "1 - 1 / 2 ^ 49 \<le> ?S" using rounding_consts(2) by linarith
  have S: "\<bar>?S - 1\<bar> \<le> 1 / 2 ^ 49" using S_up S_low by linarith
  have "\<exists>t. foldl num_add (Fin 0) (map Fin qs) = Fin t \<and> 0 \<le> t \<and> onGrid t
           \<and> ?L ^ length qs * (0 + ?S) \<le> t \<and> t \<le> ?U ^ length qs * (0 + ?S)"
    by (rule fold_chain[OF qs(3) _ onGrid_zero]) (simp_all add: qs(2) assms(2))
  then obtain t where t: "foldl num_add (Fin 0) (map Fin qs) = Fin t"
      "?L ^ 5 * ?S \<le> t" "t \<le> ?U ^ 5 * ?S"
    using qs(2) assms(2) by auto
  have "?U ^ 5 * ?S \<le> ?U ^ 5 * (1 + 1 / 2 ^ 49)" using S_up U5 by (intro mult_left_mono) auto
  then have t_up: "t < 1 + 1 / 100" using t(3) tot_consts(1) by linarith
  have "?L ^ 5 * (1 - 1 / 2 ^ 49) \<le> ?L ^ 5 * ?S" using S_low L5 by (intro mult_left_mono) auto
  then have t_low: "1 - 1 / 100 < t" using t(2) tot_consts(2) by linarith
  have "\<bar>t - 1\<bar> < 1 / 100" using t_up t_low by linarith
  then show ?thesis using qs(1,2) assms(2) S t(1) T(1) by auto
qed


text \<open>
  C4 (as amended). Let the five weights, after the requested value has been put in, be
  doubles from 0 to 1 whose total, as the code adds them, is positive. Then every one of
  the five entries of the result, the edited one too, is the entry divided by that same
  total; all five are finite; their sum is 1 up to the rounding of the five divisions:
  as exact numbers they sum to 1 within \<open>2^-49\<close>, and added the way the code adds them
  they pass its own test \<open>|total - 1| < 0.01\<close>.
\<close>

theorem weights_sum_to_one:
  assumes "list_all unitWeight (weightValues (setWeight p k v))"
    and "gt_zero (weightTotal (setWeight p k v))"
  shows "weightValues (handleSliderChange p k v)
           = map (\<lambda>w. num_div w (weightTotal (setWeight p k v))) (weightValues (setWeight p k v))
       \<and> list_all isFin (weightValues (handleSliderChange p k v))
       \<and> \<bar>exactSum (handleSliderChange p k v) - 1\<bar> \<le> 1 / 2 ^ 49
       \<and> (\<exists>t. weightTotal (handleSliderChange p k v) = Fin t \<and> \<bar>t - 1\<bar> < 1 / 100)"
proof -
  let ?np = "setWeight p k v"
  have v: "weightValues (handleSliderChange p k v)
           = map (\<lambda>w. num_div w (weightTotal ?np)) (weightValues ?np)"
    using assms(2) by (simp add: handleSliderChange_def Let_def weightValues_def)
  from unitWeight_grid[OF assms(1)] obtain as where
    as: "weightValues ?np = map Fin as" "list_all (\<lambda>a. 0 \<le> a \<and> a \<le> 1 \<and> onGrid a) as"
    by blast
  have len: "length as = 5"
  proof -
    have "length (weightValues ?np) = 5" by (simp add: weightValues_def)
    then show ?thesis unfolding as(1) by simp
  qed
  have tot: "foldl num_add (Fin 0) (map Fin as) = weightTotal ?np"
    unfolding weightTotal_def as(1) ..
  from normalise_sum[OF as(2) len tot assms(2)] obtain qs t where
    qs: "map (\<lambda>w. num_div w (weightTotal ?np)) (map Fin as) = map Fin qs" "length qs = 5"
        "\<bar>sum_list qs - 1\<bar> \<le> 1 / 2 ^ 49"
        "foldl num_add (Fin 0) (map Fin qs) = Fin t" "\<bar>t - 1\<bar> < 1 / 100"
    by blast
  have r: "weightValues (handleSliderChange p k v) = map Fin qs"
    unfolding v as(1) qs(1) ..
  have f: "list_all isFin (weightValues (handleSliderChange p k v))"
    unfolding r by (simp add: list_all_iff)
  have e: "exactSum (handleSliderChange p k v) = sum_list qs"
    unfolding exactSum_def r by (simp add: comp_def)
  have w: "weightTotal (handleSliderChange p k v) = Fin t"
    unfolding weightTotal_def r by (rule qs(4))
  show ?thesis using v f e qs(3) w qs(5) by auto
qed

lemma decimal_doubles:
  "roundDouble (3 / 10) = Fin (5404319552844595 / 18014398509481984)"
  "roundDouble (1 / 4) = Fin (1 / 4)"
  "roundDouble (1 / 5) = Fin (3602879701896397 / 18014398509481984)"
  "roundDouble (3 / 20) = Fin (5404319552844595 / 36028797018963968)"
  "roundDouble (1 / 10) = Fin (3602879701896397 / 36028797018963968)"
  "roundDouble (3 / 5) = Fin (5404319552844595 / 9007199254740992)"
  "roundDouble (1 / 20) = Fin (3602879701896397 / 72057594037927936)"
  by code_simp+

lemma doubles_fixed:
  "roundDouble (5404319552844595 / 18014398509481984) = Fin (5404319552844595 / 18014398509481984)"
  "roundDouble (1 / 4) = Fin (1 / 4)"
  "roundDouble (3602879701896397 / 18014398509481984) = Fin (3602879701896397 / 18014398509481984)"
  "roundDouble (5404319552844595 / 36028797018963968) = Fin (5404319552844595 / 36028797018963968)"
  "roundDouble (3602879701896397 / 36028797018963968) = Fin (3602879701896397 / 36028797018963968)"
  "roundDouble (5404319552844595 / 9007199254740992) = Fin (5404319552844595 / 9007199254740992)"
  by code_simp+

lemma sixty_edit:
  "setWeight defaultWeights PriorityLevel (roundDouble (3 / 5)) =
     \<lparr> priorityLevel = Fin (5404319552844595 / 9007199254740992),
       taskFulfillment = Fin (1 / 4),
       fairness = Fin (3602879701896397 / 18014398509481984),
       efficiency = Fin (5404319552844595 / 36028797018963968),
       resourceUtilization = Fin (3602879701896397 / 36028797018963968) \<rparr>"
  by (simp add: defaultWeights_def decimal_doubles)

lemma sixty_total:
  "weightTotal
     \<lparr> priorityLevel = Fin (5404319552844595 / 9007199254740992),
       taskFulfillment = Fin (1 / 4),
       fairness = Fin (3602879701896397 / 18014398509481984),
       efficiency = Fin (5404319552844595 / 36028797018963968),
       resourceUtilization = Fin (3602879701896397 / 36028797018963968) \<rparr> = Fin (5854679515581645 / 4503599627370496)"
  by code_simp

lemma sixty_quotients:
  "num_div (Fin (5404319552844595 / 9007199254740992)) (Fin (5854679515581645 / 4503599627370496)) = Fin (8314337773607069 / 18014398509481984)"
  "num_div (Fin (1 / 4)) (Fin (5854679515581645 / 4503599627370496)) = Fin (866076851417403 / 4503599627370496)"
  "num_div (Fin (3602879701896397 / 18014398509481984)) (Fin (5854679515581645 / 4503599627370496)) = Fin (1385722962267845 / 9007199254740992)"
  "num_div (Fin (5404319552844595 / 36028797018963968)) (Fin (5854679515581645 / 4503599627370496)) = Fin (8314337773607069 / 72057594037927936)"
  "num_div (Fin (3602879701896397 / 36028797018963968)) (Fin (5854679515581645 / 4503599627370496)) = Fin (1385722962267845 / 18014398509481984)"
  by code_simp+

lemma sixty_result:
  "handleSliderChange defaultWeights PriorityLevel (roundDouble (3 / 5)) =
     \<lparr> priorityLevel = Fin (8314337773607069 / 18014398509481984),
       taskFulfillment = Fin (866076851417403 / 4503599627370496),
       fairness = Fin (1385722962267845 / 9007199254740992),
       efficiency = Fin (8314337773607069 / 72057594037927936),
       resourceUtilization = Fin (1385722962267845 / 18014398509481984) \<rparr>"
  unfolding handleSliderChange_def sixty_edit Let_def sixty_total
  by (simp add: gt_zero_def sixty_quotients del: num_div.simps)

lemma sixty_result_total:
  "weightTotal
     \<lparr> priorityLevel = Fin (8314337773607069 / 18014398509481984),
       taskFulfillment = Fin (866076851417403 / 4503599627370496),
       fairness = Fin (1385722962267845 / 9007199254740992),
       efficiency = Fin (8314337773607069 / 72057594037927936),
       resourceUtilization = Fin (1385722962267845 / 18014398509481984) \<rparr> = Fin 1"
  by code_simp

lemma five_edit:
  "setWeight defaultWeights PriorityLevel (roundDouble (1 / 20)) =
     \<lparr> priorityLevel = Fin (3602879701896397 / 72057594037927936),
       taskFulfillment = Fin (1 / 4),
       fairness = Fin (3602879701896397 / 18014398509481984),
       efficiency = Fin (5404319552844595 / 36028797018963968),
       resourceUtilization = Fin (3602879701896397 / 36028797018963968) \<rparr>"
  by (simp add: defaultWeights_def decimal_doubles)

lemma five_total:
  "weightTotal
     \<lparr> priorityLevel = Fin (3602879701896397 / 72057594037927936),
       taskFulfillment = Fin (1 / 4),
       fairness = Fin (3602879701896397 / 18014398509481984),
       efficiency = Fin (5404319552844595 / 36028797018963968),
       resourceUtilization = Fin (3602879701896397 / 36028797018963968) \<rparr> = Fin (3 / 4)"
  by code_simp

lemma five_quotients:
  "num_div (Fin (3602879701896397 / 72057594037927936)) (Fin (3 / 4)) = Fin (4803839602528529 / 72057594037927936)"
  "num_div (Fin (1 / 4)) (Fin (3 / 4)) = Fin (6004799503160661 / 18014398509481984)"
  "num_div (Fin (3602879701896397 / 18014398509481984)) (Fin (3 / 4)) = Fin (4803839602528529 / 18014398509481984)"
  "num_div (Fin (5404319552844595 / 36028797018963968)) (Fin (3 / 4)) = Fin (7205759403792793 / 36028797018963968)"
  "num_div (Fin (3602879701896397 / 36028797018963968)) (Fin (3 / 4)) = Fin (4803839602528529 / 36028797018963968)"
  by code_simp+

lemma five_result:
  "handleSliderChange defaultWeights PriorityLevel (roundDouble (1 / 20)) =
     \<lparr> priorityLevel = Fin (4803839602528529 / 72057594037927936),
       taskFulfillment = Fin (6004799503160661 / 18014398509481984),
       fairness = Fin (4803839602528529 / 18014398509481984),
       efficiency = Fin (7205759403792793 / 36028797018963968),
       resourceUtilization = Fin (4803839602528529 / 36028797018963968) \<rparr>"
  unfolding handleSliderChange_def five_edit Let_def five_total
  by (simp add: gt_zero_def five_quotients del: num_div.simps)

lemma five_result_total:
  "weightTotal
     \<lparr> priorityLevel = Fin (4803839602528529 / 72057594037927936),
       taskFulfillment = Fin (6004799503160661 / 18014398509481984),
       fairness = Fin (4803839602528529 / 18014398509481984),
       efficiency = Fin (7205759403792793 / 36028797018963968),
       resourceUtilization = Fin (4803839602528529 / 36028797018963968) \<rparr> = Fin (9007199254740991 / 9007199254740992)"
  by code_simp

text \<open>Starting from the default vector and setting \<open>priorityLevel\<close> to 0.6: every
  entry is divided by the total 1.3, the code's own sum of the result is 1, and the exact
  sum of the five doubles is \<open>1 - 3 / 2^56\<close>.\<close>

theorem weights_sum_to_one_witness:
  "list_all unitWeight (weightValues (setWeight defaultWeights PriorityLevel (roundDouble (3 / 5))))
   \<and> gt_zero (weightTotal (setWeight defaultWeights PriorityLevel (roundDouble (3 / 5))))
   \<and> weightTotal (setWeight defaultWeights PriorityLevel (roundDouble (3 / 5)))
       = roundDouble (13 / 10)
   \<and> \<bar>exactSum (handleSliderChange defaultWeights PriorityLevel (roundDouble (3 / 5))) - 1\<bar>
       \<le> 1 / 2 ^ 49
   \<and> exactSum (handleSliderChange defaultWeights PriorityLevel (roundDouble (3 / 5)))
       = 1 - 3 / 2 ^ 56
   \<and> weightTotal (handleSliderChange defaultWeights PriorityLevel (roundDouble (3 / 5))) = Fin 1"
proof -
  have u: "list_all unitWeight (weightValues (setWeight defaultWeights PriorityLevel (roundDouble (3 / 5))))"
    unfolding sixty_edit by (simp add: weightValues_def unitWeight_def doubles_fixed)
  have g: "gt_zero (weightTotal (setWeight defaultWeights PriorityLevel (roundDouble (3 / 5))))"
    unfolding sixty_edit sixty_total by (simp add: gt_zero_def)
  have t: "roundDouble (13 / 10) = Fin (5854679515581645 / 4503599627370496)"
    by code_simp
  have e: "exactSum (handleSliderChange defaultWeights PriorityLevel (roundDouble (3 / 5)))
       = 1 - 3 / 2 ^ 56"
    unfolding sixty_result by (simp add: exactSum_def weightValues_def)
  have "\<bar>exactSum (handleSliderChange defaultWeights PriorityLevel (roundDouble (3 / 5))) - 1\<bar>
       \<le> 1 / 2 ^ 49"
    using weights_sum_to_one[OF u g] by blast
  then show ?thesis
    using u g e unfolding sixty_edit sixty_total sixty_result sixty_result_total t by blast
qed

text \<open>C4 as stated fails: starting from the default vector and setting
  \<open>priorityLevel\<close> to 0.05, the five entries of the result do not sum to 1, neither as
  exact numbers nor as the code adds them.\<close>

theorem weights_sum_inexact:
  "exactSum (handleSliderChange defaultWeights PriorityLevel (roundDouble (1 / 20)))
     = 1 - 3 / 2 ^ 56
   \<and> weightTotal (handleSliderChange defaultWeights PriorityLevel (roundDouble (1 / 20)))
     = Fin (1 - 1 / 2 ^ 53)"
  unfolding five_result five_result_total
  by (simp add: exactSum_def weightValues_def)

end
